theory Spec2Isabelle
  imports Main
begin

section \<open>Domain types (types/index.ts)\<close>

text \<open>
  The interfaces of \<^verbatim>\<open>types/index.ts\<close> as records. Field names are the
  source's; where two interfaces share a field name the later record carries a prefix
  (\<open>seg_\<close> for FlightSegment, \<open>lay_\<close> for Layover, \<open>c_\<close> for ConnectionCandidate,
  \<open>sp_\<close> for SearchParams), and the itinerary's \<^verbatim>\<open>id\<close> is \<open>ident\<close>.

  A JavaScript \<^verbatim>\<open>Date\<close> is its time value: integer milliseconds since the epoch.
  The embedding covers valid Dates only; \<^verbatim>\<open>Invalid Date\<close> (time value NaN) is
  outside the model. Durations in minutes are integers.
  Prices are JSON numbers that the code only copies and adds; the price type is a
  parameter \<open>'p\<close> with an addition, so nothing is assumed about floating-point sums.
\<close>

type_synonym Date = int

record Airport =
  code :: string
  name :: string
  city :: string
  country :: string
  timezone :: string

record 'p Flight =
  flightNumber :: string
  airline :: string
  origin :: string
  destination :: string
  departureTime :: string
  arrivalTime :: string
  price :: 'p
  aircraft :: string

record 'p FlightData =
  airports :: "Airport list"
  flights :: "'p Flight list"

record SearchParams =
  sp_origin :: string
  sp_destination :: string
  sp_date :: string

record 'p FlightSegment =
  seg_flightNumber :: string
  seg_airline :: string
  seg_origin :: string
  seg_originCountry :: string
  seg_originCity :: string
  seg_destination :: string
  seg_destinationCountry :: string
  seg_destinationCity :: string
  seg_departureTime :: string
  seg_arrivalTime :: string
  seg_duration :: int
  seg_price :: 'p

record Layover =
  lay_airport :: string
  lay_airportCity :: string
  lay_airportCountry :: string
  lay_duration :: int
  isDomestic :: bool

record 'p Itinerary =
  ident :: string
  segments :: "'p FlightSegment list"
  layovers :: "Layover list"
  totalDuration :: int
  totalPrice :: 'p
  stops :: int

record 'p SearchResponse =
  itineraries :: "'p Itinerary list"
  searchParams :: SearchParams
  totalResults :: nat

record 'p FlightWithMetadata = "'p Flight" +
  originAirport :: Airport
  destinationAirport :: Airport
  departureDateUTC :: Date
  arrivalDateUTC :: Date
  durationMinutes :: int

record 'p ConnectionCandidate =
  c_segments :: "'p FlightWithMetadata list"
  c_totalDuration :: int
  c_totalPrice :: 'p

section \<open>Time utilities (utils/dateUtils.ts)\<close>

text \<open>
  \<^verbatim>\<open>dateUtils.ts\<close> calls three functions of the libraries date-fns and
  date-fns-tz whose code is not part of the repository. They are parameters of the
  model, collected in one record:
  \<^item> \<open>parseISO s\<close>: the Date whose wall-clock fields are those written in \<open>s\<close>;
  \<^item> \<open>utcToZonedTime d tz\<close>: the Date whose wall-clock fields show the instant \<open>d\<close>
    as a clock in zone \<open>tz\<close> reads it;
  \<^item> \<open>format d tz\<close>: the fields of \<open>d\<close> printed with the pattern
    \<^verbatim>\<open>yyyy-MM-dd'T'HH:mm:ssXXX\<close> and the option \<^verbatim>\<open>{ timeZone: tz }\<close>.
\<close>

record TimeLib =
  parseISO :: "string \<Rightarrow> Date"
  utcToZonedTime :: "Date \<Rightarrow> string \<Rightarrow> Date"
  format :: "Date \<Rightarrow> string \<Rightarrow> string"

text \<open>
  date-fns \<^verbatim>\<open>differenceInMinutes(left, right)\<close>, as the library documents it:
  the difference of the two time values in milliseconds, divided by 60000 and rounded
  towards zero. The general theorems below do not depend on the rounding.
\<close>

definition differenceInMinutes :: "Date \<Rightarrow> Date \<Rightarrow> int" where
  "differenceInMinutes dateLeft dateRight =
     (let diff = dateLeft - dateRight
      in if diff > 0 then diff div 60000 else - ((- diff) div 60000))"

definition localTimeToUTC :: "TimeLib \<Rightarrow> string \<Rightarrow> string \<Rightarrow> Date" where
  "localTimeToUTC lib localTimeString tz =
     (let date = parseISO lib localTimeString;
          zonedDate = utcToZonedTime lib date tz
      in date - (zonedDate - date))"

definition utcToLocalTime :: "TimeLib \<Rightarrow> Date \<Rightarrow> string \<Rightarrow> string" where
  "utcToLocalTime lib utcDate tz =
     (let zonedDate = utcToZonedTime lib utcDate tz
      in format lib zonedDate tz)"

definition calculateDuration :: "Date \<Rightarrow> Date \<Rightarrow> int" where
  "calculateDuration departureUTC arrivalUTC = differenceInMinutes arrivalUTC departureUTC"

definition calculateLayoverDuration :: "Date \<Rightarrow> Date \<Rightarrow> int" where
  "calculateLayoverDuration firstArrivalUTC secondDepartureUTC =
     differenceInMinutes secondDepartureUTC firstArrivalUTC"

section \<open>Connection rules (utils/connectionRules.ts)\<close>

definition MIN_DOMESTIC :: int where "MIN_DOMESTIC = 45"
definition MIN_INTERNATIONAL :: int where "MIN_INTERNATIONAL = 90"
definition MAX_LAYOVER :: int where "MAX_LAYOVER = 360"

definition isDomesticConnection ::
  "'p FlightWithMetadata \<Rightarrow> 'p FlightWithMetadata \<Rightarrow> bool" where
  "isDomesticConnection arrivingFlight departingFlight =
     (country (destinationAirport arrivingFlight) = country (originAirport departingFlight))"

definition isValidLayoverDuration :: "int \<Rightarrow> bool \<Rightarrow> bool" where
  "isValidLayoverDuration layoverMinutes domestic =
     (let minRequired = (if domestic then MIN_DOMESTIC else MIN_INTERNATIONAL)
      in layoverMinutes \<ge> minRequired \<and> layoverMinutes \<le> MAX_LAYOVER)"

definition canConnect ::
  "'p FlightWithMetadata \<Rightarrow> 'p FlightWithMetadata \<Rightarrow> int \<Rightarrow> bool" where
  "canConnect firstFlight secondFlight layoverMinutes =
     (if destination firstFlight \<noteq> origin secondFlight then False
      else if departureDateUTC secondFlight \<le> arrivalDateUTC firstFlight then False
      else isValidLayoverDuration layoverMinutes
             (isDomesticConnection firstFlight secondFlight))"

section \<open>The flight store (services/DataLoader.ts)\<close>

text \<open>
  The singleton's fields. A JavaScript \<^verbatim>\<open>Map\<close> from strings is a partial function;
  \<open>flightData\<close> is \<open>None\<close> for \<^verbatim>\<open>null\<close>.
\<close>

record 'p DataLoader =
  flightData :: "'p FlightData option"
  airportMap :: "string \<rightharpoonup> Airport"
  flightsWithMetadata :: "'p FlightWithMetadata list"
  flightsByOrigin :: "string \<rightharpoonup> 'p FlightWithMetadata list"
  flightsByDestination :: "string \<rightharpoonup> 'p FlightWithMetadata list"
  flightsByDate :: "string \<rightharpoonup> 'p FlightWithMetadata list"

text \<open>The instance \<^verbatim>\<open>getInstance\<close> creates: every field at its initialiser.\<close>

definition newDataLoader :: "'p DataLoader" where
  "newDataLoader =
     \<lparr>flightData = None, airportMap = Map.empty, flightsWithMetadata = [],
      flightsByOrigin = Map.empty, flightsByDestination = Map.empty,
      flightsByDate = Map.empty\<rparr>"

text \<open>
  The errors thrown while indexing: \<^verbatim>\<open>Flight data not loaded\<close>, and
  \<^verbatim>\<open>Missing airport data for flight N: O -> D\<close>. \<^verbatim>\<open>loadData\<close> catches either
  and throws \<^verbatim>\<open>Failed to load flight data: ...\<close> around it.
\<close>

datatype BuildError = FlightDataNotLoaded | MissingAirportData string string string

datatype LoadError = FailedToLoad BuildError

definition enrichFlightWithMetadata ::
  "TimeLib \<Rightarrow> 'p DataLoader \<Rightarrow> 'p Flight \<Rightarrow> BuildError + 'p FlightWithMetadata" where
  "enrichFlightWithMetadata lib st flight =
     (case (airportMap st (origin flight), airportMap st (destination flight)) of
        (Some oa, Some da) \<Rightarrow>
          (let depUTC = localTimeToUTC lib (departureTime flight) (timezone oa);
               arrUTC = localTimeToUTC lib (arrivalTime flight) (timezone da);
               dur = calculateDuration depUTC arrUTC
           in Inr \<lparr>flightNumber = flightNumber flight, airline = airline flight,
                   origin = origin flight, destination = destination flight,
                   departureTime = departureTime flight, arrivalTime = arrivalTime flight,
                   price = price flight, aircraft = aircraft flight,
                   originAirport = oa, destinationAirport = da,
                   departureDateUTC = depUTC, arrivalDateUTC = arrUTC,
                   durationMinutes = dur\<rparr>)
      | _ \<Rightarrow> Inl (MissingAirportData (flightNumber flight) (origin flight) (destination flight)))"

text \<open>\<^verbatim>\<open>flights.map(f)\<close> where \<open>f\<close> may throw: the first error ends the map.\<close>

fun mapThrowing :: "('a \<Rightarrow> 'e + 'b) \<Rightarrow> 'a list \<Rightarrow> 'e + 'b list" where
  "mapThrowing f [] = Inr []"
| "mapThrowing f (x # xs) =
     (case f x of
        Inl e \<Rightarrow> Inl e
      | Inr y \<Rightarrow> (case mapThrowing f xs of Inl e \<Rightarrow> Inl e | Inr ys \<Rightarrow> Inr (y # ys)))"

text \<open>
  One step of an index loop:
  \<^verbatim>\<open>const flights = index.get(key) || []; flights.push(flight); index.set(key, flights)\<close>.
\<close>

definition pushInto ::
  "('f \<Rightarrow> string) \<Rightarrow> (string \<rightharpoonup> 'f list) \<Rightarrow> 'f \<Rightarrow> (string \<rightharpoonup> 'f list)" where
  "pushInto key index flight =
     (let bucket = (case index (key flight) of None \<Rightarrow> [] | Some fs \<Rightarrow> fs)
      in index(key flight \<mapsto> bucket @ [flight]))"

text \<open>\<^verbatim>\<open>s.split('T')[0]\<close>: the text before the first \<open>T\<close>, all of \<open>s\<close> if it has none.\<close>

definition splitT0 :: "string \<Rightarrow> string" where
  "splitT0 s = takeWhile (\<lambda>c. c \<noteq> CHR ''T'') s"

text \<open>
  \<^verbatim>\<open>buildIndices\<close> mutates the loader field by field, so a throw leaves the fields
  written so far: the result is the error, if any, and the loader as it then stands.
\<close>

definition buildIndices ::
  "TimeLib \<Rightarrow> 'p DataLoader \<Rightarrow> BuildError option \<times> 'p DataLoader" where
  "buildIndices lib st =
     (case flightData st of
        None \<Rightarrow> (Some FlightDataNotLoaded, st)
      | Some fd \<Rightarrow>
          (let st1 = st\<lparr>airportMap :=
                          foldl (\<lambda>m airport. m(code airport \<mapsto> airport)) (airportMap st) (airports fd)\<rparr>
           in case mapThrowing (enrichFlightWithMetadata lib st1) (flights fd) of
                Inl e \<Rightarrow> (Some e, st1)
              | Inr fs \<Rightarrow>
                  (let st2 = st1\<lparr>flightsWithMetadata := fs\<rparr>;
                       st3 = st2\<lparr>flightsByOrigin :=
                                     foldl (pushInto origin) (flightsByOrigin st2) fs\<rparr>;
                       st4 = st3\<lparr>flightsByDestination :=
                                     foldl (pushInto destination) (flightsByDestination st3) fs\<rparr>;
                       st5 = st4\<lparr>flightsByDate :=
                                     foldl (pushInto (\<lambda>f. splitT0 (departureTime f)))
                                       (flightsByDate st4) fs\<rparr>
                   in (None, st5))))"

text \<open>
  \<^verbatim>\<open>loadData(filePath)\<close> reads and parses the file, then indexes. Reading and
  \<^verbatim>\<open>JSON.parse\<close> are outside the model: \<open>loadData\<close> takes the parsed dataset.
\<close>

definition loadData ::
  "TimeLib \<Rightarrow> 'p FlightData \<Rightarrow> 'p DataLoader \<Rightarrow> LoadError option \<times> 'p DataLoader" where
  "loadData lib fd st =
     (case buildIndices lib (st\<lparr>flightData := Some fd\<rparr>) of
        (None, st') \<Rightarrow> (None, st')
      | (Some e, st') \<Rightarrow> (Some (FailedToLoad e), st'))"

definition getAirport :: "'p DataLoader \<Rightarrow> string \<Rightarrow> Airport option" where
  "getAirport st c = airportMap st c"

definition getFlightsByOriginAndDate ::
  "'p DataLoader \<Rightarrow> string \<Rightarrow> string \<Rightarrow> 'p FlightWithMetadata list" where
  "getFlightsByOriginAndDate st orig date =
     (let allFlightsFromOrigin = (case flightsByOrigin st orig of None \<Rightarrow> [] | Some fs \<Rightarrow> fs)
      in filter (\<lambda>flight. splitT0 (departureTime flight) = date) allFlightsFromOrigin)"

definition getDirectFlights ::
  "'p DataLoader \<Rightarrow> string \<Rightarrow> string \<Rightarrow> string \<Rightarrow> 'p FlightWithMetadata list" where
  "getDirectFlights st orig dest date =
     filter (\<lambda>flight. destination flight = dest) (getFlightsByOriginAndDate st orig date)"

definition getFlightsDepartingFrom ::
  "'p DataLoader \<Rightarrow> string \<Rightarrow> 'p FlightWithMetadata list" where
  "getFlightsDepartingFrom st airport =
     (case flightsByOrigin st airport of None \<Rightarrow> [] | Some fs \<Rightarrow> fs)"

section \<open>The search service (services/FlightSearchService.ts)\<close>

text \<open>
  The errors \<^verbatim>\<open>validateSearchParams\<close> throws, by their messages:
  \<^verbatim>\<open>Invalid origin airport code: C\<close>, \<^verbatim>\<open>Invalid destination airport code: C\<close>,
  \<^verbatim>\<open>Origin and destination must be different\<close>,
  \<^verbatim>\<open>Invalid date format. Expected YYYY-MM-DD\<close>.
\<close>

datatype SearchError =
  InvalidOrigin string
| InvalidDestination string
| SameAirport
| InvalidDateFormat

definition isDigit :: "char \<Rightarrow> bool" where
  "isDigit c = (c \<in> set ''0123456789'')"

text \<open>
  The regular expression \<^verbatim>\<open>/^\d{4}-\d{2}-\d{2}$/\<close>: exactly ten characters, digits
  but for a hyphen in the fifth and eighth place.
\<close>

fun matchesDatePattern :: "string \<Rightarrow> bool" where
  "matchesDatePattern [y1, y2, y3, y4, h1, m1, m2, h2, d1, d2] =
     (isDigit y1 \<and> isDigit y2 \<and> isDigit y3 \<and> isDigit y4 \<and> h1 = CHR ''-'' \<and>
      isDigit m1 \<and> isDigit m2 \<and> h2 = CHR ''-'' \<and> isDigit d1 \<and> isDigit d2)"
| "matchesDatePattern _ = False"

definition validateSearchParams :: "'p DataLoader \<Rightarrow> SearchParams \<Rightarrow> SearchError + unit" where
  "validateSearchParams st params =
     (let orig = sp_origin params; dest = sp_destination params; date = sp_date params;
          originAirport = getAirport st orig;
          destinationAirport = getAirport st dest
      in if originAirport = None then Inl (InvalidOrigin orig)
         else if destinationAirport = None then Inl (InvalidDestination dest)
         else if orig = dest then Inl SameAirport
         else if \<not> matchesDatePattern date then Inl InvalidDateFormat
         else Inr ())"

definition findDirectFlights ::
  "'p DataLoader \<Rightarrow> string \<Rightarrow> string \<Rightarrow> string \<Rightarrow> 'p ConnectionCandidate list" where
  "findDirectFlights st orig dest date =
     map (\<lambda>flight. \<lparr>c_segments = [flight], c_totalDuration = durationMinutes flight,
                     c_totalPrice = price flight\<rparr>)
         (getDirectFlights st orig dest date)"

text \<open>
  The nested \<^verbatim>\<open>for\<close> loops push candidates in iteration order: each loop is the
  concatenation, over its list, of what its body pushes; \<^verbatim>\<open>continue\<close> pushes nothing.
\<close>

definition oneStopSecond ::
  "string \<Rightarrow> 'p::plus FlightWithMetadata \<Rightarrow> 'p FlightWithMetadata \<Rightarrow> 'p ConnectionCandidate list" where
  "oneStopSecond dest firstFlight secondFlight =
     (if destination secondFlight \<noteq> dest then []
      else
        (let layoverMinutes =
               calculateLayoverDuration (arrivalDateUTC firstFlight) (departureDateUTC secondFlight)
         in if canConnect firstFlight secondFlight layoverMinutes
            then [\<lparr>c_segments = [firstFlight, secondFlight],
                    c_totalDuration =
                      durationMinutes firstFlight + layoverMinutes + durationMinutes secondFlight,
                    c_totalPrice = price firstFlight + price secondFlight\<rparr>]
            else []))"

definition findOneStopConnections ::
  "'p::plus DataLoader \<Rightarrow> string \<Rightarrow> string \<Rightarrow> string \<Rightarrow> 'p ConnectionCandidate list" where
  "findOneStopConnections st orig dest date =
     (let firstLegFlights = getFlightsByOriginAndDate st orig date
      in concat (map (\<lambda>firstFlight.
           if destination firstFlight = dest then []
           else concat (map (oneStopSecond dest firstFlight)
                          (getFlightsDepartingFrom st (destination firstFlight))))
         firstLegFlights))"

definition twoStopThird ::
  "string \<Rightarrow> 'p::plus FlightWithMetadata \<Rightarrow> 'p FlightWithMetadata \<Rightarrow> int \<Rightarrow>
   'p FlightWithMetadata \<Rightarrow> 'p ConnectionCandidate list" where
  "twoStopThird dest firstFlight secondFlight firstLayover thirdFlight =
     (if destination thirdFlight \<noteq> dest then []
      else
        (let secondLayover =
               calculateLayoverDuration (arrivalDateUTC secondFlight) (departureDateUTC thirdFlight)
         in if canConnect secondFlight thirdFlight secondLayover
            then [\<lparr>c_segments = [firstFlight, secondFlight, thirdFlight],
                    c_totalDuration =
                      durationMinutes firstFlight + firstLayover + durationMinutes secondFlight +
                      secondLayover + durationMinutes thirdFlight,
                    c_totalPrice = price firstFlight + price secondFlight + price thirdFlight\<rparr>]
            else []))"

definition twoStopSecond ::
  "'p::plus DataLoader \<Rightarrow> string \<Rightarrow> string \<Rightarrow> 'p FlightWithMetadata \<Rightarrow>
   'p FlightWithMetadata \<Rightarrow> 'p ConnectionCandidate list" where
  "twoStopSecond st orig dest firstFlight secondFlight =
     (if destination secondFlight = dest then []
      else if destination secondFlight = orig then []
      else
        (let firstLayover =
               calculateLayoverDuration (arrivalDateUTC firstFlight) (departureDateUTC secondFlight)
         in if \<not> canConnect firstFlight secondFlight firstLayover then []
            else concat (map (twoStopThird dest firstFlight secondFlight firstLayover)
                           (getFlightsDepartingFrom st (destination secondFlight)))))"

definition findTwoStopConnections ::
  "'p::plus DataLoader \<Rightarrow> string \<Rightarrow> string \<Rightarrow> string \<Rightarrow> 'p ConnectionCandidate list" where
  "findTwoStopConnections st orig dest date =
     (let firstLegFlights = getFlightsByOriginAndDate st orig date
      in concat (map (\<lambda>firstFlight.
           if destination firstFlight = dest then []
           else concat (map (twoStopSecond st orig dest firstFlight)
                          (getFlightsDepartingFrom st (destination firstFlight))))
         firstLegFlights))"

definition toSegment :: "TimeLib \<Rightarrow> 'p FlightWithMetadata \<Rightarrow> 'p FlightSegment" where
  "toSegment lib flight =
     \<lparr>seg_flightNumber = flightNumber flight,
      seg_airline = airline flight,
      seg_origin = origin flight,
      seg_originCountry = country (originAirport flight),
      seg_originCity = city (originAirport flight),
      seg_destination = destination flight,
      seg_destinationCountry = country (destinationAirport flight),
      seg_destinationCity = city (destinationAirport flight),
      seg_departureTime =
        utcToLocalTime lib (departureDateUTC flight) (timezone (originAirport flight)),
      seg_arrivalTime =
        utcToLocalTime lib (arrivalDateUTC flight) (timezone (destinationAirport flight)),
      seg_duration = durationMinutes flight,
      seg_price = price flight\<rparr>"

text \<open>
  The layover loop \<^verbatim>\<open>for (i = 0; i < segments.length - 1; i++)\<close>: one layover for
  each adjacent pair, in order.
\<close>

fun layoversBetween :: "'p FlightWithMetadata list \<Rightarrow> Layover list" where
  "layoversBetween (currentFlight # nextFlight # rest) =
     \<lparr>lay_airport = destination currentFlight,
      lay_airportCity = city (destinationAirport currentFlight),
      lay_airportCountry = country (destinationAirport currentFlight),
      lay_duration =
        calculateLayoverDuration (arrivalDateUTC currentFlight) (departureDateUTC nextFlight),
      isDomestic = isDomesticConnection currentFlight nextFlight\<rparr>
     # layoversBetween (nextFlight # rest)"
| "layoversBetween _ = []"

text \<open>
  \<^verbatim>\<open>uuidv4()\<close> (package uuid) draws a fresh random identifier. The source of
  randomness is a state \<open>'g\<close>; \<open>uuidv4 g\<close> is the identifier drawn and the state after.
\<close>

definition candidateToItinerary ::
  "TimeLib \<Rightarrow> ('g \<Rightarrow> string \<times> 'g) \<Rightarrow> 'g \<Rightarrow> 'p ConnectionCandidate \<Rightarrow> 'p Itinerary \<times> 'g" where
  "candidateToItinerary lib uuidv4 g candidate =
     (let segs = map (toSegment lib) (c_segments candidate);
          lays = layoversBetween (c_segments candidate);
          (newId, g') = uuidv4 g
      in (\<lparr>ident = newId, segments = segs, layovers = lays,
            totalDuration = c_totalDuration candidate,
            totalPrice = c_totalPrice candidate,
            stops = int (length (c_segments candidate)) - 1\<rparr>, g'))"

fun convertToItineraries ::
  "TimeLib \<Rightarrow> ('g \<Rightarrow> string \<times> 'g) \<Rightarrow> 'g \<Rightarrow> 'p ConnectionCandidate list \<Rightarrow>
   'p Itinerary list \<times> 'g" where
  "convertToItineraries lib uuidv4 g [] = ([], g)"
| "convertToItineraries lib uuidv4 g (candidate # rest) =
     (let (it, g1) = candidateToItinerary lib uuidv4 g candidate;
          (its, g2) = convertToItineraries lib uuidv4 g1 rest
      in (it # its, g2))"

text \<open>
  \<^verbatim>\<open>itineraries.sort((a, b) => a.totalDuration - b.totalDuration)\<close>.
  \<^verbatim>\<open>Array.prototype.sort\<close> is stable (ECMAScript 2019): elements the comparator
  calls equal keep their order. It is modelled by insertion sort, which is.
\<close>

definition byTotalDuration :: "'p Itinerary \<Rightarrow> 'p Itinerary \<Rightarrow> int" where
  "byTotalDuration a b = totalDuration a - totalDuration b"

fun insertBy :: "('a \<Rightarrow> 'a \<Rightarrow> int) \<Rightarrow> 'a \<Rightarrow> 'a list \<Rightarrow> 'a list" where
  "insertBy cmp x [] = [x]"
| "insertBy cmp x (y # ys) = (if cmp x y \<le> 0 then x # y # ys else y # insertBy cmp x ys)"

definition arraySort :: "('a \<Rightarrow> 'a \<Rightarrow> int) \<Rightarrow> 'a list \<Rightarrow> 'a list" where
  "arraySort cmp xs = foldr (insertBy cmp) xs []"

text \<open>
  The process state a search runs in: the singleton loader and the randomness
  \<^verbatim>\<open>uuidv4\<close> draws from. \<open>search\<close> returns the response, or the error thrown, and
  the state after the call.
\<close>

record ('p, 'g) World =
  dataLoader :: "'p DataLoader"
  entropy :: 'g

definition search ::
  "TimeLib \<Rightarrow> ('g \<Rightarrow> string \<times> 'g) \<Rightarrow> ('p::plus, 'g) World \<Rightarrow> SearchParams \<Rightarrow>
   (SearchError + 'p SearchResponse) \<times> ('p, 'g) World" where
  "search lib uuidv4 w params =
     (let orig = sp_origin params; dest = sp_destination params; date = sp_date params;
          st = dataLoader w
      in case validateSearchParams st params of
           Inl e \<Rightarrow> (Inl e, w)
         | Inr _ \<Rightarrow>
             (let directFlights = findDirectFlights st orig dest date;
                  (its1, g1) = convertToItineraries lib uuidv4 (entropy w) directFlights;
                  oneStopConnections = findOneStopConnections st orig dest date;
                  (its2, g2) = convertToItineraries lib uuidv4 g1 oneStopConnections;
                  twoStopConnections = findTwoStopConnections st orig dest date;
                  (its3, g3) = convertToItineraries lib uuidv4 g2 twoStopConnections;
                  sorted_its = arraySort byTotalDuration (its1 @ its2 @ its3)
              in (Inr \<lparr>itineraries = sorted_its, searchParams = params,
                        totalResults = length sorted_its\<rparr>,
                  w\<lparr>entropy := g3\<rparr>)))"

section \<open>A reference instance of the date libraries, and sample datasets\<close>

text \<open>
  The theorems below hold for every instance of the library parameters. Concrete runs
  need one. \<open>refLib\<close> follows the libraries' documented behaviour on a server whose
  system clock is set to UTC, for timestamps of the dataset's form
  \<^verbatim>\<open>YYYY-MM-DDTHH:mm:ss\<close> and the zone rules of the year 2024 (US daylight saving
  time from 10 March to 3 November).
\<close>

definition digitVal :: "char \<Rightarrow> int" where
  "digitVal c = int (length (takeWhile (\<lambda>d. d \<noteq> c) ''0123456789''))"

definition numeral_of :: "string \<Rightarrow> int" where
  "numeral_of s = foldl (\<lambda>acc c. 10 * acc + digitVal c) 0 s"

text \<open>Days from 1970-01-01 to a date of the proleptic Gregorian calendar, and back.\<close>

definition daysFromCivil :: "int \<Rightarrow> int \<Rightarrow> int \<Rightarrow> int" where
  "daysFromCivil y m d =
     (let y' = (if m \<le> 2 then y - 1 else y);
          era = y' div 400;
          yoe = y' - era * 400;
          doy = (153 * (if m > 2 then m - 3 else m + 9) + 2) div 5 + d - 1;
          doe = yoe * 365 + yoe div 4 - yoe div 100 + doy
      in era * 146097 + doe - 719468)"

definition civilFromDays :: "int \<Rightarrow> int \<times> int \<times> int" where
  "civilFromDays z =
     (let z' = z + 719468;
          era = z' div 146097;
          doe = z' - era * 146097;
          yoe = (doe - doe div 1460 + doe div 36524 - doe div 146096) div 365;
          doy = doe - (365 * yoe + yoe div 4 - yoe div 100);
          mp = (5 * doy + 2) div 153;
          d = doy - (153 * mp + 2) div 5 + 1;
          m = (if mp < 10 then mp + 3 else mp - 9);
          y = yoe + era * 400
      in (if m \<le> 2 then y + 1 else y, m, d))"

definition refParseISO :: "string \<Rightarrow> Date" where
  "refParseISO s =
     (let y = numeral_of (take 4 s);
          mo = numeral_of (take 2 (drop 5 s));
          d = numeral_of (take 2 (drop 8 s));
          h = numeral_of (take 2 (drop 11 s));
          mi = numeral_of (take 2 (drop 14 s));
          sec = numeral_of (take 2 (drop 17 s))
      in (((daysFromCivil y mo d * 24 + h) * 60 + mi) * 60 + sec) * 1000)"

text \<open>
  The offset from UTC, in minutes, that a zone has at an instant. US daylight saving
  time of 2024 starts on 10 March and ends on 3 November, at 02:00 local time.
\<close>

definition refZoneOffset :: "string \<Rightarrow> Date \<Rightarrow> int" where
  "refZoneOffset tz d =
     (if tz = ''America/New_York'' \<or> tz = ''America/Toronto''
      then (if 1710054000000 \<le> d \<and> d < 1730613600000 then - 240 else - 300)
      else if tz = ''America/Chicago''
      then (if 1710057600000 \<le> d \<and> d < 1730617200000 then - 300 else - 360)
      else if tz = ''America/Denver''
      then (if 1710061200000 \<le> d \<and> d < 1730620800000 then - 360 else - 420)
      else if tz = ''America/Los_Angeles''
      then (if 1710064800000 \<le> d \<and> d < 1730624400000 then - 420 else - 480)
      else 0)"

definition refUtcToZonedTime :: "Date \<Rightarrow> string \<Rightarrow> Date" where
  "refUtcToZonedTime d tz = d + refZoneOffset tz d * 60000"

definition digitChar :: "int \<Rightarrow> char" where
  "digitChar k = ''0123456789'' ! nat (k mod 10)"

definition pad2 :: "int \<Rightarrow> string" where
  "pad2 n = [digitChar (n div 10), digitChar n]"

definition pad4 :: "int \<Rightarrow> string" where
  "pad4 n = [digitChar (n div 1000), digitChar (n div 100), digitChar (n div 10), digitChar n]"

text \<open>
  The wall-clock fields of the Date, then the zone's offset as \<^verbatim>\<open>+hh:mm\<close>
  (\<^verbatim>\<open>Z\<close> for zero). The claims read the first nineteen characters only.
\<close>

definition refFormat :: "Date \<Rightarrow> string \<Rightarrow> string" where
  "refFormat d tz =
     (let secs = d div 1000;
          days = secs div 86400;
          rest = secs mod 86400;
          (y, m, dd) = civilFromDays days;
          off = refZoneOffset tz d;
          a = \<bar>off\<bar>
      in pad4 y @ ''-'' @ pad2 m @ ''-'' @ pad2 dd @ ''T'' @
         pad2 (rest div 3600) @ '':'' @ pad2 (rest mod 3600 div 60) @ '':'' @ pad2 (rest mod 60) @
         (if off = 0 then ''Z''
          else (if off < 0 then ''-'' else ''+'') @ pad2 (a div 60) @ '':'' @ pad2 (a mod 60)))"

definition refLib :: TimeLib where
  "refLib = \<lparr>parseISO = refParseISO, utcToZonedTime = refUtcToZonedTime, format = refFormat\<rparr>"

text \<open>
  A source of identifiers for concrete runs: the state is the list of identifiers still
  to be drawn.
\<close>

definition drawId :: "string list \<Rightarrow> string \<times> string list" where
  "drawId pool = (case pool of [] \<Rightarrow> ([], []) | x # rest \<Rightarrow> (x, rest))"

definition idPool :: "string list" where
  "idPool = [''id-01'', ''id-02'', ''id-03'', ''id-04'', ''id-05'', ''id-06'', ''id-07'',
             ''id-08'', ''id-09'', ''id-10'', ''id-11'', ''id-12'']"

definition mkAirport :: "string \<Rightarrow> string \<Rightarrow> string \<Rightarrow> string \<Rightarrow> Airport" where
  "mkAirport c ci co tz = \<lparr>code = c, name = c, city = ci, country = co, timezone = tz\<rparr>"

definition mkFlight ::
  "string \<Rightarrow> string \<Rightarrow> string \<Rightarrow> string \<Rightarrow> string \<Rightarrow> int \<Rightarrow> int Flight" where
  "mkFlight n orig dest dep arr p =
     \<lparr>flightNumber = n, airline = ''SkyPath'', origin = orig, destination = dest,
      departureTime = dep, arrivalTime = arr, price = p, aircraft = ''A320''\<rparr>"

definition sampleAirports :: "Airport list" where
  "sampleAirports =
     [mkAirport ''BOS'' ''Boston'' ''US'' ''America/New_York'',
      mkAirport ''JFK'' ''New York'' ''US'' ''America/New_York'',
      mkAirport ''ORD'' ''Chicago'' ''US'' ''America/Chicago'',
      mkAirport ''DEN'' ''Denver'' ''US'' ''America/Denver'',
      mkAirport ''SEA'' ''Seattle'' ''US'' ''America/Los_Angeles'',
      mkAirport ''YYZ'' ''Toronto'' ''CA'' ''America/Toronto'']"

text \<open>
  Boston to Seattle on 2024-03-15: two direct flights (390 and 510 minutes), one
  connection through Chicago (195 + 45 + 270 = 510), two through Toronto
  (105 + 60 + 325 = 490 and 105 + 105 + 325 = 535), one through Chicago and Denver
  (195 + 60 + 150 + 60 + 165 = 630); SP205 leaves Chicago 30 minutes after SP201 lands,
  too early to connect.
\<close>

definition sampleData :: "int FlightData" where
  "sampleData =
     \<lparr>airports = sampleAirports,
      flights =
        [mkFlight ''SP201'' ''BOS'' ''ORD'' ''2024-03-15T08:00:00'' ''2024-03-15T10:15:00'' 120,
         mkFlight ''SP100'' ''BOS'' ''SEA'' ''2024-03-15T10:00:00'' ''2024-03-15T15:30:00'' 260,
         mkFlight ''SP101'' ''BOS'' ''SEA'' ''2024-03-15T09:00:00'' ''2024-03-15T12:30:00'' 340,
         mkFlight ''SP303'' ''BOS'' ''YYZ'' ''2024-03-15T07:00:00'' ''2024-03-15T08:45:00'' 90,
         mkFlight ''SP202'' ''ORD'' ''SEA'' ''2024-03-15T11:00:00'' ''2024-03-15T13:30:00'' 150,
         mkFlight ''SP205'' ''ORD'' ''SEA'' ''2024-03-15T10:45:00'' ''2024-03-15T13:15:00'' 140,
         mkFlight ''SP203'' ''ORD'' ''DEN'' ''2024-03-15T11:15:00'' ''2024-03-15T12:45:00'' 80,
         mkFlight ''SP204'' ''DEN'' ''SEA'' ''2024-03-15T13:45:00'' ''2024-03-15T15:30:00'' 95,
         mkFlight ''SP304'' ''YYZ'' ''SEA'' ''2024-03-15T09:45:00'' ''2024-03-15T12:10:00'' 210,
         mkFlight ''SP305'' ''YYZ'' ''SEA'' ''2024-03-15T10:30:00'' ''2024-03-15T12:55:00'' 215]\<rparr>"

definition sampleWorld :: "(int, string list) World" where
  "sampleWorld =
     \<lparr>dataLoader = snd (loadData refLib sampleData newDataLoader), entropy = idPool\<rparr>"

definition sampleParams :: SearchParams where
  "sampleParams = \<lparr>sp_origin = ''BOS'', sp_destination = ''SEA'', sp_date = ''2024-03-15''\<rparr>"

definition sampleResult :: "SearchError + int SearchResponse" where
  "sampleResult = fst (search refLib drawId sampleWorld sampleParams)"

section \<open>Predicates used in the statements\<close>

text \<open>
  Consecutive legs connect: \<open>canConnect\<close> accepts each adjacent pair with the layover
  \<open>calculateLayoverDuration\<close> computes for it.
\<close>

fun legsConnect :: "'p FlightWithMetadata list \<Rightarrow> bool" where
  "legsConnect (a # b # rest) =
     (canConnect a b (calculateLayoverDuration (arrivalDateUTC a) (departureDateUTC b)) \<and>
      legsConnect (b # rest))"
| "legsConnect _ = True"

text \<open>The candidates of the three stages of a search, in the order the stages run.\<close>

definition allCandidates ::
  "'p::plus DataLoader \<Rightarrow> SearchParams \<Rightarrow> 'p ConnectionCandidate list" where
  "allCandidates st params =
     findDirectFlights st (sp_origin params) (sp_destination params) (sp_date params) @
     findOneStopConnections st (sp_origin params) (sp_destination params) (sp_date params) @
     findTwoStopConnections st (sp_origin params) (sp_destination params) (sp_date params)"

text \<open>A search result with every itinerary's identifier blanked.\<close>

definition withoutIds :: "SearchError + 'p SearchResponse \<Rightarrow> SearchError + 'p SearchResponse" where
  "withoutIds r =
     (case r of
        Inl e \<Rightarrow> Inl e
      | Inr resp \<Rightarrow>
          Inr (resp\<lparr>itineraries := map (\<lambda>it. it\<lparr>ident := []\<rparr>) (itineraries resp)\<rparr>))"

text \<open>
  The itineraries of a search before the sort: the candidates of the three stages,
  converted in order from the state of the randomness the search starts in.
\<close>

definition unsortedItineraries ::
  "TimeLib \<Rightarrow> ('g \<Rightarrow> string \<times> 'g) \<Rightarrow> ('p::plus, 'g) World \<Rightarrow> SearchParams \<Rightarrow> 'p Itinerary list" where
  "unsortedItineraries lib uuidv4 w params =
     fst (convertToItineraries lib uuidv4 (entropy w) (allCandidates (dataLoader w) params))"

text \<open>Searches of the sample store with an impossible date, and with a bad request.\<close>

definition monthThirteen :: SearchParams where
  "monthThirteen = \<lparr>sp_origin = ''BOS'', sp_destination = ''SEA'', sp_date = ''2024-13-99''\<rparr>"

definition februaryThirty :: SearchParams where
  "februaryThirty = \<lparr>sp_origin = ''BOS'', sp_destination = ''SEA'', sp_date = ''2024-02-30''\<rparr>"

definition slashedDate :: SearchParams where
  "slashedDate = \<lparr>sp_origin = ''BOS'', sp_destination = ''SEA'', sp_date = ''15/03/2024''\<rparr>"

definition unknownOriginBadDate :: SearchParams where
  "unknownOriginBadDate =
     \<lparr>sp_origin = ''XXX'', sp_destination = ''XXX'', sp_date = ''tomorrow''\<rparr>"

text \<open>
  A dataset with a flight from Boston back to Boston, SP900 (06:00 to 07:00). SP201
  leaves Boston an hour after it lands, and SP202 leaves Chicago 45 minutes after SP201
  lands.
\<close>

definition loopData :: "int FlightData" where
  "loopData =
     \<lparr>airports = sampleAirports,
      flights =
        [mkFlight ''SP900'' ''BOS'' ''BOS'' ''2024-03-15T06:00:00'' ''2024-03-15T07:00:00'' 50,
         mkFlight ''SP201'' ''BOS'' ''ORD'' ''2024-03-15T08:00:00'' ''2024-03-15T10:15:00'' 120,
         mkFlight ''SP202'' ''ORD'' ''SEA'' ''2024-03-15T11:00:00'' ''2024-03-15T13:30:00'' 150]\<rparr>"

definition loopWorld :: "(int, string list) World" where
  "loopWorld =
     \<lparr>dataLoader = snd (loadData refLib loopData newDataLoader), entropy = idPool\<rparr>"

definition loopResult :: "SearchError + int SearchResponse" where
  "loopResult = fst (search refLib drawId loopWorld sampleParams)"

text \<open>
  A dataset whose one flight lands, in the same zone, an hour before it takes off.
\<close>

definition backwardsData :: "int FlightData" where
  "backwardsData =
     \<lparr>airports = sampleAirports,
      flights =
        [mkFlight ''SP666'' ''JFK'' ''BOS'' ''2024-03-15T10:00:00'' ''2024-03-15T09:00:00'' 75]\<rparr>"

text \<open>The loader after one \<open>loadData\<close> of the sample dataset, and after a second.\<close>

definition loadedOnce :: "int DataLoader" where
  "loadedOnce = snd (loadData refLib sampleData newDataLoader)"

definition loadedTwice :: "int DataLoader" where
  "loadedTwice = snd (loadData refLib sampleData loadedOnce)"

section \<open>Lemmas on the parts of a search\<close>

lemma set_insertBy: "set (insertBy cmp x xs) = insert x (set xs)"
  by (induction xs) auto

lemma set_arraySort: "set (arraySort cmp xs) = set xs"
  by (induction xs) (simp_all add: arraySort_def set_insertBy)

lemma insertBy_byTotalDuration:
  "insertBy byTotalDuration x xs = insort_key totalDuration x xs"
  by (induction xs) (simp_all add: byTotalDuration_def)

lemma arraySort_byTotalDuration:
  "arraySort byTotalDuration xs = sort_key totalDuration xs"
  by (induction xs) (simp_all add: arraySort_def insertBy_byTotalDuration)

lemma candidateToItinerary_fst:
  "fst (candidateToItinerary lib uuidv4 g c) =
     \<lparr>ident = fst (uuidv4 g), segments = map (toSegment lib) (c_segments c),
      layovers = layoversBetween (c_segments c), totalDuration = c_totalDuration c,
      totalPrice = c_totalPrice c, stops = int (length (c_segments c)) - 1\<rparr>"
  by (simp add: candidateToItinerary_def split: prod.splits)

lemma convertToItineraries_mem:
  "it \<in> set (fst (convertToItineraries lib uuidv4 g cs)) \<Longrightarrow>
   \<exists>c \<in> set cs. \<exists>g'. it = fst (candidateToItinerary lib uuidv4 g' c)"
proof (induction cs arbitrary: g)
  case Nil
  then show ?case by simp
next
  case (Cons c cs)
  obtain i g1 where c1: "candidateToItinerary lib uuidv4 g c = (i, g1)"
    by (cases "candidateToItinerary lib uuidv4 g c")
  obtain rest g2 where c2: "convertToItineraries lib uuidv4 g1 cs = (rest, g2)"
    by (cases "convertToItineraries lib uuidv4 g1 cs")
  from Cons.prems c1 c2 have "it = i \<or> it \<in> set rest" by simp
  then show ?case
  proof
    assume "it = i"
    with c1 have "it = fst (candidateToItinerary lib uuidv4 g c)" by simp
    then show ?thesis by auto
  next
    assume "it \<in> set rest"
    with c2 have "it \<in> set (fst (convertToItineraries lib uuidv4 g1 cs))" by simp
    from Cons.IH[OF this] show ?thesis by auto
  qed
qed

lemma convertToItineraries_totalDuration:
  "map totalDuration (fst (convertToItineraries lib uuidv4 g cs)) = map c_totalDuration cs"
proof (induction cs arbitrary: g)
  case Nil
  then show ?case by simp
next
  case (Cons c cs)
  have "totalDuration (fst (candidateToItinerary lib uuidv4 g c)) = c_totalDuration c"
    by (simp add: candidateToItinerary_fst)
  with Cons.IH show ?case
    by (simp split: prod.splits) (metis fst_conv snd_conv)
qed

text \<open>The itineraries of a successful search before sorting, stage by stage.\<close>

lemma search_Inr:
  assumes "fst (search lib uuidv4 w params) = Inr resp"
  shows "validateSearchParams (dataLoader w) params = Inr () \<and>
         (\<exists>its1 its2 its3 g1 g2 g3.
            convertToItineraries lib uuidv4 (entropy w)
              (findDirectFlights (dataLoader w) (sp_origin params) (sp_destination params)
                 (sp_date params)) = (its1, g1) \<and>
            convertToItineraries lib uuidv4 g1
              (findOneStopConnections (dataLoader w) (sp_origin params) (sp_destination params)
                 (sp_date params)) = (its2, g2) \<and>
            convertToItineraries lib uuidv4 g2
              (findTwoStopConnections (dataLoader w) (sp_origin params) (sp_destination params)
                 (sp_date params)) = (its3, g3) \<and>
            itineraries resp = arraySort byTotalDuration (its1 @ its2 @ its3) \<and>
            searchParams resp = params \<and>
            totalResults resp = length (itineraries resp))"
  using assms
  by (auto simp: search_def Let_def split: sum.splits prod.splits)

lemma search_itinerary_candidate:
  assumes "fst (search lib uuidv4 w params) = Inr resp" and "it \<in> set (itineraries resp)"
  shows "\<exists>c \<in> set (allCandidates (dataLoader w) params).
           \<exists>g. it = fst (candidateToItinerary lib uuidv4 g c)"
proof -
  from search_Inr[OF assms(1)] obtain its1 its2 its3 g1 g2 g3 where
    d: "convertToItineraries lib uuidv4 (entropy w)
          (findDirectFlights (dataLoader w) (sp_origin params) (sp_destination params)
             (sp_date params)) = (its1, g1)" and
    o: "convertToItineraries lib uuidv4 g1
          (findOneStopConnections (dataLoader w) (sp_origin params) (sp_destination params)
             (sp_date params)) = (its2, g2)" and
    t: "convertToItineraries lib uuidv4 g2
          (findTwoStopConnections (dataLoader w) (sp_origin params) (sp_destination params)
             (sp_date params)) = (its3, g3)" and
    s: "itineraries resp = arraySort byTotalDuration (its1 @ its2 @ its3)"
    by blast
  from assms(2) s have "it \<in> set its1 \<or> it \<in> set its2 \<or> it \<in> set its3"
    by (simp add: set_arraySort)
  then show ?thesis
  proof (elim disjE)
    assume "it \<in> set its1"
    with d have "it \<in> set (fst (convertToItineraries lib uuidv4 (entropy w)
          (findDirectFlights (dataLoader w) (sp_origin params) (sp_destination params)
             (sp_date params))))" by simp
    from convertToItineraries_mem[OF this] show ?thesis
      by (auto simp: allCandidates_def)
  next
    assume "it \<in> set its2"
    with o have "it \<in> set (fst (convertToItineraries lib uuidv4 g1
          (findOneStopConnections (dataLoader w) (sp_origin params) (sp_destination params)
             (sp_date params))))" by simp
    from convertToItineraries_mem[OF this] show ?thesis
      by (auto simp: allCandidates_def)
  next
    assume "it \<in> set its3"
    with t have "it \<in> set (fst (convertToItineraries lib uuidv4 g2
          (findTwoStopConnections (dataLoader w) (sp_origin params) (sp_destination params)
             (sp_date params))))" by simp
    from convertToItineraries_mem[OF this] show ?thesis
      by (auto simp: allCandidates_def)
  qed
qed

text \<open>What each stage produces.\<close>

lemma findDirectFlights_shape:
  "c \<in> set (findDirectFlights st orig dest date) \<Longrightarrow>
   \<exists>f. c_segments c = [f] \<and> f \<in> set (getFlightsByOriginAndDate st orig date) \<and>
       destination f = dest"
  by (auto simp: findDirectFlights_def getDirectFlights_def)

lemma findOneStopConnections_shape:
  assumes "c \<in> set (findOneStopConnections st orig dest date)"
  shows "\<exists>f1 f2. c_segments c = [f1, f2] \<and> legsConnect [f1, f2] \<and>
           f1 \<in> set (getFlightsByOriginAndDate st orig date) \<and> destination f2 = dest"
  using assms
  by (auto simp: findOneStopConnections_def oneStopSecond_def Let_def split: if_splits)

lemma findTwoStopConnections_shape:
  assumes "c \<in> set (findTwoStopConnections st orig dest date)"
  shows "\<exists>f1 f2 f3. c_segments c = [f1, f2, f3] \<and> legsConnect [f1, f2, f3] \<and>
           f1 \<in> set (getFlightsByOriginAndDate st orig date) \<and>
           destination f2 \<noteq> orig \<and> destination f2 \<noteq> dest \<and> destination f3 = dest"
  using assms
  by (auto simp: findTwoStopConnections_def twoStopSecond_def twoStopThird_def Let_def
           split: if_splits)

lemma allCandidates_legsConnect:
  "c \<in> set (allCandidates st params) \<Longrightarrow> legsConnect (c_segments c)"
  unfolding allCandidates_def
  by (auto dest!: findDirectFlights_shape findOneStopConnections_shape
                  findTwoStopConnections_shape)

lemma legsConnect_adjacent:
  "legsConnect fs \<Longrightarrow> Suc i < length fs \<Longrightarrow>
   canConnect (fs ! i) (fs ! Suc i)
     (calculateLayoverDuration (arrivalDateUTC (fs ! i)) (departureDateUTC (fs ! Suc i)))"
proof (induction fs arbitrary: i rule: legsConnect.induct)
  case (1 a b rest)
  then show ?case by (cases i) auto
qed simp_all

lemma canConnect_facts:
  "canConnect a b m \<Longrightarrow>
   destination a = origin b \<and> arrivalDateUTC a < departureDateUTC b \<and>
   isValidLayoverDuration m (isDomesticConnection a b)"
  by (auto simp: canConnect_def split: if_splits)

lemma layoversBetween_length: "length (layoversBetween fs) = length fs - 1"
  by (induction fs rule: layoversBetween.induct) auto

lemma layoversBetween_nth:
  "Suc i < length fs \<Longrightarrow>
   layoversBetween fs ! i =
     \<lparr>lay_airport = destination (fs ! i),
      lay_airportCity = city (destinationAirport (fs ! i)),
      lay_airportCountry = country (destinationAirport (fs ! i)),
      lay_duration =
        calculateLayoverDuration (arrivalDateUTC (fs ! i)) (departureDateUTC (fs ! Suc i)),
      isDomestic = isDomesticConnection (fs ! i) (fs ! Suc i)\<rparr>"
proof (induction fs arbitrary: i rule: layoversBetween.induct)
  case (1 a b rest)
  then show ?case by (cases i) auto
qed simp_all

text \<open>The sample search succeeds.\<close>

lemma sample_search_ok:
  "fst (search refLib drawId sampleWorld sampleParams) = Inr (projr sampleResult)"
  by code_simp

section \<open>Claims on the itineraries a search returns\<close>

text \<open>
  C1. Every itinerary a successful search returns is built from a candidate of one of
  the three stages, and for each adjacent pair of its segments \<open>i\<close> and \<open>i + 1\<close>:
  segment \<open>i\<close>'s destination code is segment \<open>i + 1\<close>'s origin code, and the absolute
  departure instant of leg \<open>i + 1\<close> is strictly later than the absolute arrival
  instant of leg \<open>i\<close>. The store is any store: \<open>canConnect\<close> checks both itself.
\<close>

theorem search_segments_connect:
  assumes "fst (search lib uuidv4 w params) = Inr resp"
      and "it \<in> set (itineraries resp)"
  shows "\<exists>c g. c \<in> set (allCandidates (dataLoader w) params) \<and>
               it = fst (candidateToItinerary lib uuidv4 g c) \<and>
               segments it = map (toSegment lib) (c_segments c) \<and>
               (\<forall>i. Suc i < length (segments it) \<longrightarrow>
                    seg_destination (segments it ! i) = seg_origin (segments it ! Suc i) \<and>
                    arrivalDateUTC (c_segments c ! i) < departureDateUTC (c_segments c ! Suc i))"
proof -
  from search_itinerary_candidate[OF assms] obtain c g where
    c: "c \<in> set (allCandidates (dataLoader w) params)" and
    it: "it = fst (candidateToItinerary lib uuidv4 g c)"
    by blast
  from it have segs: "segments it = map (toSegment lib) (c_segments c)"
    by (simp add: candidateToItinerary_fst)
  from c have legs: "legsConnect (c_segments c)"
    by (rule allCandidates_legsConnect)
  have "seg_destination (segments it ! i) = seg_origin (segments it ! Suc i) \<and>
        arrivalDateUTC (c_segments c ! i) < departureDateUTC (c_segments c ! Suc i)"
    if "Suc i < length (segments it)" for i
  proof -
    from that segs have len: "Suc i < length (c_segments c)" by simp
    from canConnect_facts[OF legsConnect_adjacent[OF legs len]]
    have "destination (c_segments c ! i) = origin (c_segments c ! Suc i)"
      and "arrivalDateUTC (c_segments c ! i) < departureDateUTC (c_segments c ! Suc i)"
      by simp_all
    with len segs show ?thesis
      by (simp add: toSegment_def)
  qed
  with c it segs show ?thesis by blast
qed

theorem search_segments_connect_witness:
  "map (\<lambda>it. map (\<lambda>s. (seg_origin s, seg_destination s)) (segments it))
       (itineraries (projr sampleResult)) =
     [[(''BOS'', ''SEA'')],
      [(''BOS'', ''YYZ''), (''YYZ'', ''SEA'')],
      [(''BOS'', ''SEA'')],
      [(''BOS'', ''ORD''), (''ORD'', ''SEA'')],
      [(''BOS'', ''YYZ''), (''YYZ'', ''SEA'')],
      [(''BOS'', ''ORD''), (''ORD'', ''DEN''), (''DEN'', ''SEA'')]] \<and>
   list_all (\<lambda>it. \<forall>i. Suc i < length (segments it) \<longrightarrow>
                    seg_destination (segments it ! i) = seg_origin (segments it ! Suc i))
     (itineraries (projr sampleResult))"
proof -
  note ok = sample_search_ok
  have "\<forall>it \<in> set (itineraries (projr sampleResult)).
          \<forall>i. Suc i < length (segments it) \<longrightarrow>
              seg_destination (segments it ! i) = seg_origin (segments it ! Suc i)"
    using search_segments_connect[OF ok] by blast
  then have "list_all (\<lambda>it. \<forall>i. Suc i < length (segments it) \<longrightarrow>
                    seg_destination (segments it ! i) = seg_origin (segments it ! Suc i))
     (itineraries (projr sampleResult))"
    by (simp add: list_all_iff)
  moreover have "map (\<lambda>it. map (\<lambda>s. (seg_origin s, seg_destination s)) (segments it))
       (itineraries (projr sampleResult)) =
     [[(''BOS'', ''SEA'')],
      [(''BOS'', ''YYZ''), (''YYZ'', ''SEA'')],
      [(''BOS'', ''SEA'')],
      [(''BOS'', ''ORD''), (''ORD'', ''SEA'')],
      [(''BOS'', ''YYZ''), (''YYZ'', ''SEA'')],
      [(''BOS'', ''ORD''), (''ORD'', ''DEN''), (''DEN'', ''SEA'')]]"
    by code_simp
  ultimately show ?thesis by blast
qed

text \<open>
  C2. In every itinerary a successful search returns there is one layover for each
  adjacent pair of segments; its \<open>isDomestic\<close> flag is true exactly when the country of
  the arriving segment's destination is the country of the departing segment's origin,
  and its minutes are in \<open>[45, 360]\<close> when the flag is true and in \<open>[90, 360]\<close> when
  it is false.
\<close>

theorem search_layovers_in_bounds:
  assumes "fst (search lib uuidv4 w params) = Inr resp"
      and "it \<in> set (itineraries resp)"
  shows "length (layovers it) = length (segments it) - 1 \<and>
         (\<forall>i. i < length (layovers it) \<longrightarrow>
              isDomestic (layovers it ! i) =
                (seg_destinationCountry (segments it ! i) =
                 seg_originCountry (segments it ! Suc i)) \<and>
              (if isDomestic (layovers it ! i)
               then 45 \<le> lay_duration (layovers it ! i) \<and> lay_duration (layovers it ! i) \<le> 360
               else 90 \<le> lay_duration (layovers it ! i) \<and> lay_duration (layovers it ! i) \<le> 360))"
proof -
  from search_itinerary_candidate[OF assms] obtain c g where
    c: "c \<in> set (allCandidates (dataLoader w) params)" and
    it: "it = fst (candidateToItinerary lib uuidv4 g c)"
    by blast
  from it have segs: "segments it = map (toSegment lib) (c_segments c)"
    and lays: "layovers it = layoversBetween (c_segments c)"
    by (simp_all add: candidateToItinerary_fst)
  from c have legs: "legsConnect (c_segments c)"
    by (rule allCandidates_legsConnect)
  from segs lays have len: "length (layovers it) = length (segments it) - 1"
    by (simp add: layoversBetween_length)
  have "isDomestic (layovers it ! i) =
          (seg_destinationCountry (segments it ! i) = seg_originCountry (segments it ! Suc i)) \<and>
        (if isDomestic (layovers it ! i)
         then 45 \<le> lay_duration (layovers it ! i) \<and> lay_duration (layovers it ! i) \<le> 360
         else 90 \<le> lay_duration (layovers it ! i) \<and> lay_duration (layovers it ! i) \<le> 360)"
    if "i < length (layovers it)" for i
  proof -
    from that lays have i: "Suc i < length (c_segments c)"
      by (simp add: layoversBetween_length)
    let ?a = "c_segments c ! i" and ?b = "c_segments c ! Suc i"
    from canConnect_facts[OF legsConnect_adjacent[OF legs i]]
    have v: "isValidLayoverDuration
               (calculateLayoverDuration (arrivalDateUTC ?a) (departureDateUTC ?b))
               (isDomesticConnection ?a ?b)"
      by simp
    have l: "layovers it ! i =
       \<lparr>lay_airport = destination ?a,
        lay_airportCity = city (destinationAirport ?a),
        lay_airportCountry = country (destinationAirport ?a),
        lay_duration = calculateLayoverDuration (arrivalDateUTC ?a) (departureDateUTC ?b),
        isDomestic = isDomesticConnection ?a ?b\<rparr>"
      using layoversBetween_nth[OF i] lays by simp
    have d: "isDomesticConnection ?a ?b =
               (seg_destinationCountry (segments it ! i) = seg_originCountry (segments it ! Suc i))"
      using i segs by (simp add: isDomesticConnection_def toSegment_def)
    from v l d show ?thesis
      by (simp add: isValidLayoverDuration_def MIN_DOMESTIC_def MIN_INTERNATIONAL_def
            MAX_LAYOVER_def split: if_splits)
  qed
  with len show ?thesis by blast
qed

theorem search_layovers_in_bounds_witness:
  "map (\<lambda>it. map (\<lambda>l. (lay_airport l, lay_duration l, isDomestic l)) (layovers it))
       (itineraries (projr sampleResult)) =
     [[], [(''YYZ'', 60, True)], [], [(''ORD'', 45, True)], [(''YYZ'', 105, True)],
      [(''ORD'', 60, True), (''DEN'', 60, True)]] \<and>
   list_all (\<lambda>it. length (layovers it) = length (segments it) - 1 \<and>
               list_all (\<lambda>l. if isDomestic l
                              then 45 \<le> lay_duration l \<and> lay_duration l \<le> 360
                              else 90 \<le> lay_duration l \<and> lay_duration l \<le> 360)
                 (layovers it))
     (itineraries (projr sampleResult))"
proof -
  note ok = sample_search_ok
  have "length (layovers it) = length (segments it) - 1 \<and>
        list_all (\<lambda>l. if isDomestic l
                       then 45 \<le> lay_duration l \<and> lay_duration l \<le> 360
                       else 90 \<le> lay_duration l \<and> lay_duration l \<le> 360)
          (layovers it)"
    if "it \<in> set (itineraries (projr sampleResult))" for it
    using search_layovers_in_bounds[OF ok that]
    by (auto simp: list_all_length)
  then have "list_all (\<lambda>it. length (layovers it) = length (segments it) - 1 \<and>
               list_all (\<lambda>l. if isDomestic l
                              then 45 \<le> lay_duration l \<and> lay_duration l \<le> 360
                              else 90 \<le> lay_duration l \<and> lay_duration l \<le> 360)
                 (layovers it))
     (itineraries (projr sampleResult))"
    by (simp add: list_all_iff)
  moreover have "map (\<lambda>it. map (\<lambda>l. (lay_airport l, lay_duration l, isDomestic l)) (layovers it))
       (itineraries (projr sampleResult)) =
     [[], [(''YYZ'', 60, True)], [], [(''ORD'', 45, True)], [(''YYZ'', 105, True)],
      [(''ORD'', 60, True), (''DEN'', 60, True)]]"
    by code_simp
  ultimately show ?thesis by blast
qed

section \<open>Claims on request validation\<close>

lemma search_invalid:
  "validateSearchParams (dataLoader w) params = Inl e \<Longrightarrow>
   fst (search lib uuidv4 w params) = Inl e"
  by (simp add: search_def Let_def)

lemma search_valid:
  "validateSearchParams (dataLoader w) params = Inr u \<Longrightarrow>
   \<exists>resp. fst (search lib uuidv4 w params) = Inr resp"
  by (simp add: search_def Let_def split: prod.splits)

text \<open>
  C10. The checks of a search run in the order origin exists, destination exists,
  origin differs from destination, date format; the failure reported is the first in
  that order, whatever else is wrong. A request that passes all four is answered. The
  same-airport error can only occur when both codes name airports of the store.
\<close>

theorem validation_precedence:
  "(getAirport (dataLoader w) (sp_origin params) = None \<longrightarrow>
      fst (search lib uuidv4 w params) = Inl (InvalidOrigin (sp_origin params))) \<and>
   (getAirport (dataLoader w) (sp_origin params) \<noteq> None \<and>
    getAirport (dataLoader w) (sp_destination params) = None \<longrightarrow>
      fst (search lib uuidv4 w params) = Inl (InvalidDestination (sp_destination params))) \<and>
   (getAirport (dataLoader w) (sp_origin params) \<noteq> None \<and>
    getAirport (dataLoader w) (sp_destination params) \<noteq> None \<and>
    sp_origin params = sp_destination params \<longrightarrow>
      fst (search lib uuidv4 w params) = Inl SameAirport) \<and>
   (getAirport (dataLoader w) (sp_origin params) \<noteq> None \<and>
    getAirport (dataLoader w) (sp_destination params) \<noteq> None \<and>
    sp_origin params \<noteq> sp_destination params \<and> \<not> matchesDatePattern (sp_date params) \<longrightarrow>
      fst (search lib uuidv4 w params) = Inl InvalidDateFormat) \<and>
   (getAirport (dataLoader w) (sp_origin params) \<noteq> None \<and>
    getAirport (dataLoader w) (sp_destination params) \<noteq> None \<and>
    sp_origin params \<noteq> sp_destination params \<and> matchesDatePattern (sp_date params) \<longrightarrow>
      (\<exists>resp. fst (search lib uuidv4 w params) = Inr resp)) \<and>
   (fst (search lib uuidv4 w params) = Inl SameAirport \<longrightarrow>
      getAirport (dataLoader w) (sp_origin params) \<noteq> None \<and>
      getAirport (dataLoader w) (sp_destination params) \<noteq> None)"
proof -
  let ?v = "validateSearchParams (dataLoader w) params"
  let ?r = "fst (search lib uuidv4 w params)"
  have f1: "?r = Inl (InvalidOrigin (sp_origin params))"
    if "getAirport (dataLoader w) (sp_origin params) = None"
  proof -
    from that have "?v = Inl (InvalidOrigin (sp_origin params))"
      by (simp add: validateSearchParams_def Let_def)
    then show ?thesis by (rule search_invalid)
  qed
  have f2: "?r = Inl (InvalidDestination (sp_destination params))"
    if "getAirport (dataLoader w) (sp_origin params) \<noteq> None"
      and "getAirport (dataLoader w) (sp_destination params) = None"
  proof -
    from that have "?v = Inl (InvalidDestination (sp_destination params))"
      by (simp add: validateSearchParams_def Let_def)
    then show ?thesis by (rule search_invalid)
  qed
  have f3: "?r = Inl SameAirport"
    if "getAirport (dataLoader w) (sp_origin params) \<noteq> None"
      and "getAirport (dataLoader w) (sp_destination params) \<noteq> None"
      and "sp_origin params = sp_destination params"
  proof -
    from that have "?v = Inl SameAirport"
      by (simp add: validateSearchParams_def Let_def)
    then show ?thesis by (rule search_invalid)
  qed
  have f4: "?r = Inl InvalidDateFormat"
    if "getAirport (dataLoader w) (sp_origin params) \<noteq> None"
      and "getAirport (dataLoader w) (sp_destination params) \<noteq> None"
      and "sp_origin params \<noteq> sp_destination params"
      and "\<not> matchesDatePattern (sp_date params)"
  proof -
    from that have "?v = Inl InvalidDateFormat"
      by (simp add: validateSearchParams_def Let_def)
    then show ?thesis by (rule search_invalid)
  qed
  have f5: "\<exists>resp. ?r = Inr resp"
    if "getAirport (dataLoader w) (sp_origin params) \<noteq> None"
      and "getAirport (dataLoader w) (sp_destination params) \<noteq> None"
      and "sp_origin params \<noteq> sp_destination params"
      and "matchesDatePattern (sp_date params)"
  proof -
    from that have "?v = Inr ()"
      by (simp add: validateSearchParams_def Let_def)
    then show ?thesis by (rule search_valid)
  qed
  have f6: "getAirport (dataLoader w) (sp_origin params) \<noteq> None \<and>
           getAirport (dataLoader w) (sp_destination params) \<noteq> None"
    if "?r = Inl SameAirport"
  proof (rule ccontr)
    assume "\<not> ?thesis"
    then consider "getAirport (dataLoader w) (sp_origin params) = None"
      | "getAirport (dataLoader w) (sp_origin params) \<noteq> None"
        "getAirport (dataLoader w) (sp_destination params) = None"
      by blast
    then show False
    proof cases
      case 1
      from f1[OF this] that show False by simp
    next
      case 2
      from f2[OF this] that show False by simp
    qed
  qed
  from f1 f2 f3 f4 f5 f6 show ?thesis by blast
qed

theorem validation_precedence_witness:
  "getAirport (dataLoader sampleWorld) ''XXX'' = None \<and>
   \<not> matchesDatePattern ''tomorrow'' \<and>
   fst (search refLib drawId sampleWorld unknownOriginBadDate) = Inl (InvalidOrigin ''XXX'')"
proof -
  have a: "getAirport (dataLoader sampleWorld) (sp_origin unknownOriginBadDate) = None"
    by code_simp
  have o: "sp_origin unknownOriginBadDate = ''XXX''"
    by (simp add: unknownOriginBadDate_def)
  have d: "\<not> matchesDatePattern ''tomorrow''"
    by simp
  from a validation_precedence[of sampleWorld unknownOriginBadDate refLib drawId]
  have "fst (search refLib drawId sampleWorld unknownOriginBadDate) =
          Inl (InvalidOrigin (sp_origin unknownOriginBadDate))"
    by blast
  with a o d show ?thesis by simp
qed

text \<open>
  C4, as the code has it. When both airports exist and differ, a search fails with the
  invalid-date error exactly when the date does not have the shape of four digits, a
  hyphen, two digits, a hyphen, two digits. Whether the digits name a day of the
  calendar is not checked.
\<close>

theorem invalid_date_iff_shape:
  assumes "getAirport (dataLoader w) (sp_origin params) \<noteq> None"
      and "getAirport (dataLoader w) (sp_destination params) \<noteq> None"
      and "sp_origin params \<noteq> sp_destination params"
  shows "(fst (search lib uuidv4 w params) = Inl InvalidDateFormat) =
         (\<not> matchesDatePattern (sp_date params))"
proof (cases "matchesDatePattern (sp_date params)")
  case True
  with assms have "validateSearchParams (dataLoader w) params = Inr ()"
    by (simp add: validateSearchParams_def Let_def)
  from search_valid[OF this] obtain resp where "fst (search lib uuidv4 w params) = Inr resp"
    by blast
  with True show ?thesis by simp
next
  case False
  with assms have "validateSearchParams (dataLoader w) params = Inl InvalidDateFormat"
    by (simp add: validateSearchParams_def Let_def)
  from search_invalid[OF this] False show ?thesis by simp
qed

theorem invalid_date_iff_shape_witness:
  "\<not> matchesDatePattern ''15/03/2024'' \<and>
   fst (search refLib drawId sampleWorld slashedDate) = Inl InvalidDateFormat"
proof -
  have o: "getAirport (dataLoader sampleWorld) (sp_origin slashedDate) \<noteq> None"
    by code_simp
  have d: "getAirport (dataLoader sampleWorld) (sp_destination slashedDate) \<noteq> None"
    by code_simp
  have n: "sp_origin slashedDate \<noteq> sp_destination slashedDate"
    by (simp add: slashedDate_def)
  have m: "\<not> matchesDatePattern (sp_date slashedDate)"
    by (simp add: slashedDate_def isDigit_def)
  from invalid_date_iff_shape[OF o d n, of refLib drawId] m
  have "fst (search refLib drawId sampleWorld slashedDate) = Inl InvalidDateFormat"
    by simp
  moreover from m have "\<not> matchesDatePattern ''15/03/2024''"
    by (simp add: slashedDate_def)
  ultimately show ?thesis by simp
qed

text \<open>
  C4 as the specification states it fails: the dates 2024-13-99 and 2024-02-30
  have the shape, and the search of the sample store answers them with an empty list.
\<close>

theorem impossible_dates_accepted:
  "fst (search refLib drawId sampleWorld monthThirteen) =
     Inr \<lparr>itineraries = [], searchParams = monthThirteen, totalResults = 0\<rparr> \<and>
   fst (search refLib drawId sampleWorld februaryThirty) =
     Inr \<lparr>itineraries = [], searchParams = februaryThirty, totalResults = 0\<rparr>"
  by code_simp

section \<open>Claims on the response as a whole\<close>

lemma convertToItineraries_append:
  "convertToItineraries lib uuidv4 g (xs @ ys) =
     (fst (convertToItineraries lib uuidv4 g xs) @
      fst (convertToItineraries lib uuidv4 (snd (convertToItineraries lib uuidv4 g xs)) ys),
      snd (convertToItineraries lib uuidv4 (snd (convertToItineraries lib uuidv4 g xs)) ys))"
  by (induction xs arbitrary: g) (simp_all split: prod.splits)

lemma length_arraySort: "length (arraySort cmp xs) = length xs"
proof -
  have "length (insertBy cmp x ys) = Suc (length ys)" for x ys
    by (induction ys) simp_all
  then show ?thesis
    by (induction xs) (simp_all add: arraySort_def)
qed

text \<open>The response of a search, in terms of the list before the sort.\<close>

lemma search_fst:
  "fst (search lib uuidv4 w params) =
     (case validateSearchParams (dataLoader w) params of
        Inl e \<Rightarrow> Inl e
      | Inr u \<Rightarrow>
          Inr \<lparr>itineraries = arraySort byTotalDuration (unsortedItineraries lib uuidv4 w params),
               searchParams = params,
               totalResults = length (unsortedItineraries lib uuidv4 w params)\<rparr>)"
  by (simp add: search_def Let_def unsortedItineraries_def allCandidates_def
        convertToItineraries_append length_arraySort split: sum.splits prod.splits)

lemma search_snd_dataLoader: "dataLoader (snd (search lib uuidv4 w params)) = dataLoader w"
  by (simp add: search_def Let_def split: sum.splits prod.splits)

lemma convertToItineraries_blank:
  "map (\<lambda>it. it\<lparr>ident := []\<rparr>) (fst (convertToItineraries lib uuidv4 g cs)) =
   map (\<lambda>c. \<lparr>ident = [], segments = map (toSegment lib) (c_segments c),
             layovers = layoversBetween (c_segments c), totalDuration = c_totalDuration c,
             totalPrice = c_totalPrice c, stops = int (length (c_segments c)) - 1\<rparr>) cs"
proof (induction cs arbitrary: g)
  case Nil
  then show ?case by simp
next
  case (Cons c cs)
  obtain i g1 where c1: "candidateToItinerary lib uuidv4 g c = (i, g1)"
    by (cases "candidateToItinerary lib uuidv4 g c")
  obtain rest g2 where c2: "convertToItineraries lib uuidv4 g1 cs = (rest, g2)"
    by (cases "convertToItineraries lib uuidv4 g1 cs")
  from c1 have "i = fst (candidateToItinerary lib uuidv4 g c)" by simp
  then have i: "i\<lparr>ident := []\<rparr> =
      \<lparr>ident = [], segments = map (toSegment lib) (c_segments c),
       layovers = layoversBetween (c_segments c), totalDuration = c_totalDuration c,
       totalPrice = c_totalPrice c, stops = int (length (c_segments c)) - 1\<rparr>"
    by (simp add: candidateToItinerary_fst)
  from Cons.IH[of g1] c2 have "map (\<lambda>it. it\<lparr>ident := []\<rparr>) rest =
      map (\<lambda>c. \<lparr>ident = [], segments = map (toSegment lib) (c_segments c),
             layovers = layoversBetween (c_segments c), totalDuration = c_totalDuration c,
             totalPrice = c_totalPrice c, stops = int (length (c_segments c)) - 1\<rparr>) cs"
    by simp
  with i c1 c2 show ?case by simp
qed

lemma map_insertBy:
  assumes "\<And>a b. cmp (f a) (f b) = cmp a b"
  shows "map f (insertBy cmp x ys) = insertBy cmp (f x) (map f ys)"
  by (induction ys) (simp_all add: assms)

lemma map_arraySort:
  assumes "\<And>a b. cmp (f a) (f b) = cmp a b"
  shows "map f (arraySort cmp xs) = arraySort cmp (map f xs)"
  by (induction xs) (simp_all add: arraySort_def map_insertBy[of cmp f, OF assms])

lemma withoutIds_search:
  "withoutIds (fst (search lib uuidv4 w params)) =
     (case validateSearchParams (dataLoader w) params of
        Inl e \<Rightarrow> Inl e
      | Inr u \<Rightarrow>
          Inr \<lparr>itineraries = arraySort byTotalDuration
                 (map (\<lambda>c. \<lparr>ident = [], segments = map (toSegment lib) (c_segments c),
                            layovers = layoversBetween (c_segments c),
                            totalDuration = c_totalDuration c,
                            totalPrice = c_totalPrice c,
                            stops = int (length (c_segments c)) - 1\<rparr>)
                    (allCandidates (dataLoader w) params)),
               searchParams = params,
               totalResults = length (allCandidates (dataLoader w) params)\<rparr>)"
proof -
  have cmp: "byTotalDuration (a\<lparr>ident := []\<rparr>) (b\<lparr>ident := []\<rparr>) = byTotalDuration a b"
    for a b :: "'a Itinerary"
    by (simp add: byTotalDuration_def)
  have len: "length (fst (convertToItineraries lib uuidv4 g cs)) = length cs"
    for g and cs :: "'a ConnectionCandidate list"
    using arg_cong[OF convertToItineraries_totalDuration, of length] by simp
  show ?thesis
    by (simp add: withoutIds_def search_fst
          map_arraySort[of byTotalDuration "\<lambda>it. it\<lparr>ident := []\<rparr>", OF cmp] len
          unsortedItineraries_def convertToItineraries_blank split: sum.splits)
qed

text \<open>
  C9, as the code has it. A search does not change the store, and two searches with the
  same parameters, the second run in the state the first one leaves, return responses
  that agree in everything but the identifiers \<^verbatim>\<open>uuidv4\<close> draws: the same errors,
  or the same itineraries in the same order, the same parameters and the same count.
\<close>

theorem search_repeatable_up_to_ids:
  "dataLoader (snd (search lib uuidv4 w params)) = dataLoader w \<and>
   dataLoader (snd (search lib uuidv4 (snd (search lib uuidv4 w params)) params)) =
     dataLoader w \<and>
   withoutIds (fst (search lib uuidv4 (snd (search lib uuidv4 w params)) params)) =
     withoutIds (fst (search lib uuidv4 w params))"
proof -
  let ?w1 = "snd (search lib uuidv4 w params)"
  have same: "dataLoader ?w1 = dataLoader w"
    by (rule search_snd_dataLoader)
  have "dataLoader (snd (search lib uuidv4 ?w1 params)) = dataLoader ?w1"
    by (rule search_snd_dataLoader)
  with same have again: "dataLoader (snd (search lib uuidv4 ?w1 params)) = dataLoader w"
    by simp
  have "withoutIds (fst (search lib uuidv4 ?w1 params)) =
        withoutIds (fst (search lib uuidv4 w params))"
    unfolding withoutIds_search same by (rule refl)
  with same again show ?thesis by blast
qed

text \<open>
  C9 as the specification states it fails on the identifiers: the second search
  of the sample store draws six new ones.
\<close>

theorem repeated_search_differs:
  "map ident (itineraries (projr (fst (search refLib drawId sampleWorld sampleParams)))) =
     [''id-02'', ''id-04'', ''id-01'', ''id-03'', ''id-05'', ''id-06''] \<and>
   map ident (itineraries (projr (fst (search refLib drawId
       (snd (search refLib drawId sampleWorld sampleParams)) sampleParams)))) =
     [''id-08'', ''id-10'', ''id-07'', ''id-09'', ''id-11'', ''id-12''] \<and>
   fst (search refLib drawId (snd (search refLib drawId sampleWorld sampleParams)) sampleParams)
     \<noteq> fst (search refLib drawId sampleWorld sampleParams)"
  by code_simp

text \<open>
  C6. The itineraries of a successful search are in non-decreasing order of
  \<open>totalDuration\<close>, and those of one duration stand as in the list before the sort.
  That list follows the candidates: all direct ones (no stop), then all with one stop,
  then all with two, each stage in the order its loops over the origin index run.
\<close>

theorem search_sorted_stable:
  assumes "fst (search lib uuidv4 w params) = Inr resp"
  shows "sorted (map totalDuration (itineraries resp)) \<and>
         (\<forall>d. filter (\<lambda>it. totalDuration it = d) (itineraries resp) =
              filter (\<lambda>it. totalDuration it = d) (unsortedItineraries lib uuidv4 w params)) \<and>
         map (\<lambda>it. (segments it, totalDuration it)) (unsortedItineraries lib uuidv4 w params) =
           map (\<lambda>c. (map (toSegment lib) (c_segments c), c_totalDuration c))
             (allCandidates (dataLoader w) params) \<and>
         map stops (unsortedItineraries lib uuidv4 w params) =
           replicate (length (findDirectFlights (dataLoader w) (sp_origin params)
                                (sp_destination params) (sp_date params))) 0 @
           replicate (length (findOneStopConnections (dataLoader w) (sp_origin params)
                                (sp_destination params) (sp_date params))) 1 @
           replicate (length (findTwoStopConnections (dataLoader w) (sp_origin params)
                                (sp_destination params) (sp_date params))) 2"
proof -
  let ?pre = "unsortedItineraries lib uuidv4 w params"
  from assms have its: "itineraries resp = sort_key totalDuration ?pre"
    by (auto simp: search_fst arraySort_byTotalDuration split: sum.splits)
  have srt: "sorted (map totalDuration (itineraries resp))"
    by (simp add: its)
  have stab: "filter (\<lambda>it. totalDuration it = d) (itineraries resp) =
              filter (\<lambda>it. totalDuration it = d) ?pre" for d
    by (simp add: its sort_key_stable)
  have blank: "map (\<lambda>it. it\<lparr>ident := []\<rparr>) ?pre =
      map (\<lambda>c. \<lparr>ident = [], segments = map (toSegment lib) (c_segments c),
             layovers = layoversBetween (c_segments c), totalDuration = c_totalDuration c,
             totalPrice = c_totalPrice c, stops = int (length (c_segments c)) - 1\<rparr>)
        (allCandidates (dataLoader w) params)"
    by (simp add: unsortedItineraries_def convertToItineraries_blank)
  have segs: "map (\<lambda>it. (segments it, totalDuration it)) ?pre =
           map (\<lambda>c. (map (toSegment lib) (c_segments c), c_totalDuration c))
             (allCandidates (dataLoader w) params)"
    using arg_cong[OF blank, of "map (\<lambda>it. (segments it, totalDuration it))"]
    by (simp add: comp_def)
  have st: "map stops ?pre =
      map (\<lambda>c. int (length (c_segments c)) - 1) (allCandidates (dataLoader w) params)"
    using arg_cong[OF blank, of "map stops"]
    by (simp add: comp_def)
  have d: "map (\<lambda>c. int (length (c_segments c)) - 1) (findDirectFlights st orig dest date) =
           replicate (length (findDirectFlights st orig dest date)) 0"
    for st :: "'a DataLoader" and orig dest date
    by (rule nth_equalityI) (auto dest!: findDirectFlights_shape[OF nth_mem])
  have o: "map (\<lambda>c. int (length (c_segments c)) - 1) (findOneStopConnections st orig dest date) =
           replicate (length (findOneStopConnections st orig dest date)) 1"
    for st :: "'a DataLoader" and orig dest date
    by (rule nth_equalityI) (auto dest!: findOneStopConnections_shape[OF nth_mem])
  have t: "map (\<lambda>c. int (length (c_segments c)) - 1) (findTwoStopConnections st orig dest date) =
           replicate (length (findTwoStopConnections st orig dest date)) 2"
    for st :: "'a DataLoader" and orig dest date
    by (rule nth_equalityI) (auto dest!: findTwoStopConnections_shape[OF nth_mem])
  from st have "map stops ?pre =
           replicate (length (findDirectFlights (dataLoader w) (sp_origin params)
                                (sp_destination params) (sp_date params))) 0 @
           replicate (length (findOneStopConnections (dataLoader w) (sp_origin params)
                                (sp_destination params) (sp_date params))) 1 @
           replicate (length (findTwoStopConnections (dataLoader w) (sp_origin params)
                                (sp_destination params) (sp_date params))) 2"
    by (simp add: allCandidates_def d o t)
  with srt stab segs show ?thesis by blast
qed

theorem search_sorted_stable_witness:
  "map (\<lambda>it. (map seg_flightNumber (segments it), totalDuration it, stops it))
       (unsortedItineraries refLib drawId sampleWorld sampleParams) =
     [([''SP100''], 510, 0), ([''SP101''], 390, 0),
      ([''SP201'', ''SP202''], 510, 1),
      ([''SP303'', ''SP304''], 490, 1), ([''SP303'', ''SP305''], 535, 1),
      ([''SP201'', ''SP203'', ''SP204''], 630, 2)] \<and>
   map (\<lambda>it. (map seg_flightNumber (segments it), totalDuration it, stops it))
       (itineraries (projr sampleResult)) =
     [([''SP101''], 390, 0),
      ([''SP303'', ''SP304''], 490, 1),
      ([''SP100''], 510, 0), ([''SP201'', ''SP202''], 510, 1),
      ([''SP303'', ''SP305''], 535, 1),
      ([''SP201'', ''SP203'', ''SP204''], 630, 2)] \<and>
   sorted (map totalDuration (itineraries (projr sampleResult))) \<and>
   filter (\<lambda>it. totalDuration it = 510) (itineraries (projr sampleResult)) =
     filter (\<lambda>it. totalDuration it = 510)
       (unsortedItineraries refLib drawId sampleWorld sampleParams)"
proof -
  have a: "map (\<lambda>it. (map seg_flightNumber (segments it), totalDuration it, stops it))
       (unsortedItineraries refLib drawId sampleWorld sampleParams) =
     [([''SP100''], 510, 0), ([''SP101''], 390, 0),
      ([''SP201'', ''SP202''], 510, 1),
      ([''SP303'', ''SP304''], 490, 1), ([''SP303'', ''SP305''], 535, 1),
      ([''SP201'', ''SP203'', ''SP204''], 630, 2)]"
    by code_simp
  have b: "map (\<lambda>it. (map seg_flightNumber (segments it), totalDuration it, stops it))
       (itineraries (projr sampleResult)) =
     [([''SP101''], 390, 0),
      ([''SP303'', ''SP304''], 490, 1),
      ([''SP100''], 510, 0), ([''SP201'', ''SP202''], 510, 1),
      ([''SP303'', ''SP305''], 535, 1),
      ([''SP201'', ''SP203'', ''SP204''], 630, 2)]"
    by code_simp
  from search_sorted_stable[OF sample_search_ok]
  have "sorted (map totalDuration (itineraries (projr sampleResult)))"
    and "filter (\<lambda>it. totalDuration it = 510) (itineraries (projr sampleResult)) =
         filter (\<lambda>it. totalDuration it = 510)
           (unsortedItineraries refLib drawId sampleWorld sampleParams)"
    by blast+
  with a b show ?thesis by blast
qed

section \<open>Claims on loading\<close>

lemma foldl_pushInto:
  "foldl (pushInto key) index xs k =
     (if filter (\<lambda>f. key f = k) xs = [] then index k
      else Some ((case index k of None \<Rightarrow> [] | Some fs \<Rightarrow> fs) @ filter (\<lambda>f. key f = k) xs))"
proof (induction xs arbitrary: index)
  case Nil
  then show ?case by simp
next
  case (Cons x xs)
  show ?case
    by (simp add: Cons.IH) (simp add: pushInto_def Let_def split: option.splits)
qed

lemma mapThrowing_Inr:
  "mapThrowing f xs = Inr ys \<Longrightarrow> list_all2 (\<lambda>x y. f x = Inr y) xs ys"
  by (induction xs arbitrary: ys) (auto split: sum.splits)

lemma mapThrowing_Inl:
  "mapThrowing f xs = Inl e \<Longrightarrow> \<exists>x \<in> set xs. f x = Inl e"
  by (induction xs) (auto split: sum.splits)

lemma enrichFlightWithMetadata_Inr:
  assumes "enrichFlightWithMetadata lib st f = Inr e"
  shows "flightNumber e = flightNumber f \<and> origin e = origin f \<and>
         destination e = destination f \<and> departureTime e = departureTime f \<and>
         arrivalTime e = arrivalTime f \<and>
         airportMap st (origin f) = Some (originAirport e) \<and>
         airportMap st (destination f) = Some (destinationAirport e) \<and>
         departureDateUTC e = localTimeToUTC lib (departureTime f) (timezone (originAirport e)) \<and>
         arrivalDateUTC e = localTimeToUTC lib (arrivalTime f) (timezone (destinationAirport e)) \<and>
         durationMinutes e = calculateDuration (departureDateUTC e) (arrivalDateUTC e)"
  using assms
  by (auto simp: enrichFlightWithMetadata_def Let_def split: option.splits)

lemma enrichFlightWithMetadata_Inl:
  assumes "enrichFlightWithMetadata lib st f = Inl err"
  shows "err = MissingAirportData (flightNumber f) (origin f) (destination f) \<and>
         (airportMap st (origin f) = None \<or> airportMap st (destination f) = None)"
  using assms
  by (auto simp: enrichFlightWithMetadata_def Let_def split: option.splits)

text \<open>The loader a \<open>loadData\<close> leaves, when it succeeds and when it throws.\<close>

lemma loadData_None:
  assumes "loadData lib fd st0 = (None, st)"
  shows "\<exists>fs. mapThrowing (enrichFlightWithMetadata lib st) (flights fd) = Inr fs \<and>
              flightsWithMetadata st = fs \<and>
              flightsByOrigin st = foldl (pushInto origin) (flightsByOrigin st0) fs \<and>
              flightsByDestination st =
                foldl (pushInto destination) (flightsByDestination st0) fs \<and>
              flightsByDate st =
                foldl (pushInto (\<lambda>f. splitT0 (departureTime f))) (flightsByDate st0) fs"
proof -
  let ?st1 = "st0\<lparr>flightData := Some fd,
                   airportMap := foldl (\<lambda>m airport. m(code airport \<mapsto> airport))
                                   (airportMap st0) (airports fd)\<rparr>"
  have same: "enrichFlightWithMetadata lib a = enrichFlightWithMetadata lib b"
    if "airportMap a = airportMap b" for a b :: "'a DataLoader"
    using that by (intro ext) (simp add: enrichFlightWithMetadata_def)
  from assms obtain fs where
    fs: "mapThrowing (enrichFlightWithMetadata lib ?st1) (flights fd) = Inr fs" and
    st: "st = ?st1\<lparr>flightsWithMetadata := fs,
                   flightsByOrigin := foldl (pushInto origin) (flightsByOrigin st0) fs,
                   flightsByDestination :=
                     foldl (pushInto destination) (flightsByDestination st0) fs,
                   flightsByDate :=
                     foldl (pushInto (\<lambda>f. splitT0 (departureTime f))) (flightsByDate st0) fs\<rparr>"
    by (auto simp: loadData_def buildIndices_def Let_def split: sum.splits)
  from st have "airportMap st = airportMap ?st1" by simp
  from same[OF this] fs have "mapThrowing (enrichFlightWithMetadata lib st) (flights fd) = Inr fs"
    by simp
  with st show ?thesis by simp
qed

lemma loadData_Some:
  assumes "loadData lib fd st0 = (Some err, st)"
  shows "\<exists>e. err = FailedToLoad e \<and>
             mapThrowing (enrichFlightWithMetadata lib st) (flights fd) = Inl e"
  using assms
  by (auto simp: loadData_def buildIndices_def Let_def split: sum.splits)

text \<open>
  C3, as the code has it. Loading does not look at the duration it computes. A load
  fails exactly when some flight names an origin or destination that is not in the
  airport table; otherwise each flight of the dataset is in the store, in the
  dataset's order, with the minutes from its absolute departure to its absolute
  arrival as its duration, of either sign.
\<close>

theorem load_keeps_every_duration:
  assumes "loadData lib fd st0 = (err, st)"
  shows "((err = None) =
            (\<forall>f \<in> set (flights fd).
               airportMap st (origin f) \<noteq> None \<and> airportMap st (destination f) \<noteq> None)) \<and>
         (err = None \<longrightarrow>
            list_all2
              (\<lambda>f e. flightNumber e = flightNumber f \<and> origin e = origin f \<and>
                     destination e = destination f \<and>
                     departureDateUTC e =
                       localTimeToUTC lib (departureTime f) (timezone (originAirport e)) \<and>
                     arrivalDateUTC e =
                       localTimeToUTC lib (arrivalTime f) (timezone (destinationAirport e)) \<and>
                     durationMinutes e =
                       differenceInMinutes (arrivalDateUTC e) (departureDateUTC e))
              (flights fd) (flightsWithMetadata st))"
proof (cases err)
  case None
  with assms have "loadData lib fd st0 = (None, st)" by simp
  from loadData_None[OF this] obtain fs where
    fs: "mapThrowing (enrichFlightWithMetadata lib st) (flights fd) = Inr fs" and
    st: "flightsWithMetadata st = fs"
    by blast
  from mapThrowing_Inr[OF fs]
  have all: "list_all2 (\<lambda>f e. enrichFlightWithMetadata lib st f = Inr e) (flights fd) fs" .
  have known: "airportMap st (origin f) \<noteq> None \<and> airportMap st (destination f) \<noteq> None"
    if "f \<in> set (flights fd)" for f
  proof -
    from all that obtain e where "enrichFlightWithMetadata lib st f = Inr e"
      by (auto simp: list_all2_conv_all_nth in_set_conv_nth)
    from enrichFlightWithMetadata_Inr[OF this] show ?thesis by simp
  qed
  have "list_all2
          (\<lambda>f e. flightNumber e = flightNumber f \<and> origin e = origin f \<and>
                 destination e = destination f \<and>
                 departureDateUTC e =
                   localTimeToUTC lib (departureTime f) (timezone (originAirport e)) \<and>
                 arrivalDateUTC e =
                   localTimeToUTC lib (arrivalTime f) (timezone (destinationAirport e)) \<and>
                 durationMinutes e =
                   differenceInMinutes (arrivalDateUTC e) (departureDateUTC e))
          (flights fd) fs"
    by (rule list_all2_mono[OF all])
       (auto dest!: enrichFlightWithMetadata_Inr simp: calculateDuration_def)
  with None known st show ?thesis by simp
next
  case (Some le)
  with assms have "loadData lib fd st0 = (Some le, st)" by simp
  from loadData_Some[OF this] obtain e where
    "mapThrowing (enrichFlightWithMetadata lib st) (flights fd) = Inl e"
    by blast
  from mapThrowing_Inl[OF this] obtain f where
    f: "f \<in> set (flights fd)" and "enrichFlightWithMetadata lib st f = Inl e"
    by blast
  from enrichFlightWithMetadata_Inl[OF this(2)]
  have "airportMap st (origin f) = None \<or> airportMap st (destination f) = None"
    by simp
  with f Some show ?thesis by auto
qed

theorem load_keeps_every_duration_witness:
  "fst (loadData refLib sampleData newDataLoader) = None \<and>
   list_all2 (\<lambda>f e. flightNumber e = flightNumber f \<and>
                    durationMinutes e =
                      differenceInMinutes (arrivalDateUTC e) (departureDateUTC e))
     (flights sampleData) (flightsWithMetadata loadedOnce) \<and>
   map durationMinutes (flightsWithMetadata loadedOnce) =
     [195, 510, 390, 105, 270, 270, 150, 165, 325, 325]"
proof -
  have l: "loadData refLib sampleData newDataLoader = (None, loadedOnce)"
    unfolding loadedOnce_def
    by (rule prod_eqI) (code_simp, simp)
  from load_keeps_every_duration[OF l]
  have "list_all2
          (\<lambda>f e. flightNumber e = flightNumber f \<and> origin e = origin f \<and>
                 destination e = destination f \<and>
                 departureDateUTC e =
                   localTimeToUTC refLib (departureTime f) (timezone (originAirport e)) \<and>
                 arrivalDateUTC e =
                   localTimeToUTC refLib (arrivalTime f) (timezone (destinationAirport e)) \<and>
                 durationMinutes e =
                   differenceInMinutes (arrivalDateUTC e) (departureDateUTC e))
          (flights sampleData) (flightsWithMetadata loadedOnce)"
    by simp
  then have "list_all2 (\<lambda>f e. flightNumber e = flightNumber f \<and>
                    durationMinutes e =
                      differenceInMinutes (arrivalDateUTC e) (departureDateUTC e))
     (flights sampleData) (flightsWithMetadata loadedOnce)"
    by (rule list_all2_mono) simp
  moreover have "map durationMinutes (flightsWithMetadata loadedOnce) =
     [195, 510, 390, 105, 270, 270, 150, 165, 325, 325]"
    by code_simp
  moreover from l have "fst (loadData refLib sampleData newDataLoader) = None"
    by simp
  ultimately show ?thesis by blast
qed

text \<open>
  C3 as the specification states it fails: the dataset whose flight lands an
  hour before it takes off loads, and the store has the flight with a duration of
  minus sixty minutes.
\<close>

theorem negative_duration_loaded:
  "fst (loadData refLib backwardsData newDataLoader) = None \<and>
   map (\<lambda>e. (flightNumber e, departureDateUTC e, arrivalDateUTC e, durationMinutes e))
       (flightsWithMetadata (snd (loadData refLib backwardsData newDataLoader))) =
     [(''SP666'', 1710511200000, 1710507600000, - 60)] \<and>
   map (\<lambda>e. (flightNumber e, durationMinutes e))
       (getFlightsDepartingFrom (snd (loadData refLib backwardsData newDataLoader)) ''JFK'') =
     [(''SP666'', - 60)]"
  by code_simp

text \<open>
  C8. A second \<open>loadData\<close> of the same dataset should leave the indices as the first
  did. It does not: the list of enriched flights is replaced, but each index bucket is
  read back and appended to, so after the second load every flight stands twice in its
  buckets, and a search finds each itinerary several times.
\<close>

theorem second_load_duplicates:
  "fst (loadData refLib sampleData newDataLoader) = None \<and>
   fst (loadData refLib sampleData loadedOnce) = None \<and>
   map flightNumber (flightsWithMetadata loadedOnce) =
     map flightNumber (flightsWithMetadata loadedTwice) \<and>
   map flightNumber (getFlightsDepartingFrom loadedOnce ''ORD'') =
     [''SP202'', ''SP205'', ''SP203''] \<and>
   map flightNumber (getFlightsDepartingFrom loadedTwice ''ORD'') =
     [''SP202'', ''SP205'', ''SP203'', ''SP202'', ''SP205'', ''SP203''] \<and>
   map_option (map flightNumber) (flightsByDestination loadedOnce ''DEN'') = Some [''SP203''] \<and>
   map_option (map flightNumber) (flightsByDestination loadedTwice ''DEN'') =
     Some [''SP203'', ''SP203''] \<and>
   map_option length (flightsByDate loadedOnce ''2024-03-15'') = Some 10 \<and>
   map_option length (flightsByDate loadedTwice ''2024-03-15'') = Some 20 \<and>
   map_sum (\<lambda>e. e) totalResults
     (fst (search refLib drawId \<lparr>dataLoader = loadedOnce, entropy = idPool\<rparr> sampleParams)) =
     Inr 6 \<and>
   map_sum (\<lambda>e. e) totalResults
     (fst (search refLib drawId \<lparr>dataLoader = loadedTwice, entropy = idPool\<rparr> sampleParams)) =
     Inr 24"
  by code_simp

section \<open>Two-stop itineraries and the search origin\<close>

text \<open>
  In a store loaded into a fresh loader, the flights a search starts from depart from
  the search origin, and each has the origin and destination of a flight of the dataset.
\<close>

lemma loaded_first_leg:
  assumes load: "loadData lib fd newDataLoader = (None, st)"
      and mem: "f1 \<in> set (getFlightsByOriginAndDate st orig date)"
  shows "origin f1 = orig \<and>
         (\<exists>f \<in> set (flights fd). origin f1 = origin f \<and> destination f1 = destination f)"
proof -
  from loadData_None[OF load] obtain fs where
    fs: "mapThrowing (enrichFlightWithMetadata lib st) (flights fd) = Inr fs" and
    idx: "flightsByOrigin st = foldl (pushInto origin) (flightsByOrigin newDataLoader) fs"
    by blast
  have bucket: "flightsByOrigin st orig =
      (if filter (\<lambda>f. origin f = orig) fs = [] then None
       else Some (filter (\<lambda>f. origin f = orig) fs))"
    by (simp add: idx foldl_pushInto newDataLoader_def)
  from mem bucket have f1: "f1 \<in> set fs" and o: "origin f1 = orig"
    by (auto simp: getFlightsByOriginAndDate_def Let_def split: if_splits)
  from f1 obtain i where i: "i < length fs" and fi: "fs ! i = f1"
    by (auto simp: in_set_conv_nth)
  from mapThrowing_Inr[OF fs] i fi
  have len: "i < length (flights fd)"
    and e: "enrichFlightWithMetadata lib st (flights fd ! i) = Inr f1"
    by (auto simp: list_all2_conv_all_nth)
  from len have "flights fd ! i \<in> set (flights fd)"
    by (rule nth_mem)
  with enrichFlightWithMetadata_Inr[OF e] o show ?thesis
    by auto
qed

text \<open>
  C5, as the code has it. No two-stop itinerary of a successful search has the search
  origin as the destination of its second segment. For the first segment the same
  holds when the store was loaded into a fresh loader from a dataset in which no flight
  lands where it departs; the search itself has no such check on the first leg.
\<close>

theorem two_stop_avoids_origin:
  assumes "fst (search lib uuidv4 w params) = Inr resp"
      and "it \<in> set (itineraries resp)"
      and "length (segments it) = 3"
  shows "seg_destination (segments it ! 1) \<noteq> sp_origin params \<and>
         (loadData lib fd newDataLoader = (None, dataLoader w) \<and>
          (\<forall>f \<in> set (flights fd). origin f \<noteq> destination f) \<longrightarrow>
            seg_destination (segments it ! 0) \<noteq> sp_origin params)"
proof -
  from search_itinerary_candidate[OF assms(1,2)] obtain c g where
    c: "c \<in> set (allCandidates (dataLoader w) params)" and
    it: "it = fst (candidateToItinerary lib uuidv4 g c)"
    by blast
  from it have segs: "segments it = map (toSegment lib) (c_segments c)"
    by (simp add: candidateToItinerary_fst)
  with assms(3) have len: "length (c_segments c) = 3" by simp
  from c len have "c \<in> set (findTwoStopConnections (dataLoader w) (sp_origin params)
                              (sp_destination params) (sp_date params))"
    unfolding allCandidates_def
    by (auto dest!: findDirectFlights_shape findOneStopConnections_shape)
  from findTwoStopConnections_shape[OF this] obtain f1 f2 f3 where
    legs: "c_segments c = [f1, f2, f3]" and
    f1: "f1 \<in> set (getFlightsByOriginAndDate (dataLoader w) (sp_origin params) (sp_date params))" and
    f2: "destination f2 \<noteq> sp_origin params"
    by blast
  from segs legs f2 have second: "seg_destination (segments it ! 1) \<noteq> sp_origin params"
    by (simp add: toSegment_def)
  have first: "seg_destination (segments it ! 0) \<noteq> sp_origin params"
    if load: "loadData lib fd newDataLoader = (None, dataLoader w)"
      and noloop: "\<forall>f \<in> set (flights fd). origin f \<noteq> destination f"
  proof -
    from loaded_first_leg[OF load f1] noloop
    have "destination f1 \<noteq> sp_origin params" by auto
    with segs legs show ?thesis by (simp add: toSegment_def)
  qed
  from second first show ?thesis by blast
qed

theorem two_stop_avoids_origin_witness:
  "list_all (\<lambda>f. origin f \<noteq> destination f) (flights sampleData) \<and>
   list_all (\<lambda>it. length (segments it) \<noteq> 3 \<or>
                  (seg_destination (segments it ! 1) \<noteq> ''BOS'' \<and>
                   seg_destination (segments it ! 0) \<noteq> ''BOS''))
     (itineraries (projr sampleResult)) \<and>
   list_ex (\<lambda>it. length (segments it) = 3) (itineraries (projr sampleResult))"
proof -
  have l: "loadData refLib sampleData newDataLoader = (None, dataLoader sampleWorld)"
    by (rule prod_eqI) (code_simp, simp add: sampleWorld_def)
  have n: "list_all (\<lambda>f. origin f \<noteq> destination f) (flights sampleData)"
    by code_simp
  then have n': "\<forall>f \<in> set (flights sampleData). origin f \<noteq> destination f"
    by (simp add: list_all_iff)
  have o: "sp_origin sampleParams = ''BOS''"
    by (simp add: sampleParams_def)
  have "length (segments it) \<noteq> 3 \<or>
          (seg_destination (segments it ! 1) \<noteq> ''BOS'' \<and>
           seg_destination (segments it ! 0) \<noteq> ''BOS'')"
    if "it \<in> set (itineraries (projr sampleResult))" for it
  proof (cases "length (segments it) = 3")
    case True
    from two_stop_avoids_origin[OF sample_search_ok that True, of sampleData] l n' o
    show ?thesis by simp
  next
    case False
    then show ?thesis by simp
  qed
  then have "list_all (\<lambda>it. length (segments it) \<noteq> 3 \<or>
                  (seg_destination (segments it ! 1) \<noteq> ''BOS'' \<and>
                   seg_destination (segments it ! 0) \<noteq> ''BOS''))
     (itineraries (projr sampleResult))"
    by (simp add: list_all_iff)
  moreover have "list_ex (\<lambda>it. length (segments it) = 3) (itineraries (projr sampleResult))"
    by code_simp
  ultimately show ?thesis using n by blast
qed

text \<open>
  C5 as the specification states it fails for the first segment: with the round
  flight SP900 in the dataset, the search from Boston to Seattle returns the two-stop
  itinerary SP900, SP201, SP202, whose first segment lands in Boston.
\<close>

theorem first_leg_returns_to_origin:
  "fst (loadData refLib loopData newDataLoader) = None \<and>
   sp_origin sampleParams = ''BOS'' \<and>
   map (\<lambda>it. map (\<lambda>s. (seg_flightNumber s, seg_origin s, seg_destination s)) (segments it))
       (itineraries (projr loopResult)) =
     [[(''SP201'', ''BOS'', ''ORD''), (''SP202'', ''ORD'', ''SEA'')],
      [(''SP900'', ''BOS'', ''BOS''), (''SP201'', ''BOS'', ''ORD''),
       (''SP202'', ''ORD'', ''SEA'')]]"
  by code_simp

section \<open>The round trip through UTC\<close>

text \<open>
  Where a zone keeps one offset, \<open>localTimeToUTC\<close> and \<open>utcToLocalTime\<close> are inverse
  up to formatting: the offset subtracted on the way out is the one added on the way back.
\<close>

lemma round_trip_fixed_offset:
  assumes "\<And>d. utcToZonedTime lib d tz = d + k"
  shows "utcToLocalTime lib (localTimeToUTC lib t tz) tz = format lib (parseISO lib t) tz"
proof -
  have "localTimeToUTC lib t tz = parseISO lib t - k"
    by (simp add: localTimeToUTC_def Let_def assms)
  then have "utcToZonedTime lib (localTimeToUTC lib t tz) tz = parseISO lib t"
    by (simp add: assms)
  then show ?thesis
    by (simp add: utcToLocalTime_def Let_def)
qed

text \<open>
  C7. Converting a local timestamp to an absolute instant in its zone and formatting
  that instant back in the zone should give the timestamp's wall clock again. The
  code does not across a change of offset. On 10 March 2024 New York clocks go from
  02:00 to 03:00, at 07:00 UTC. The wall-clock time 03:30 of that day exists: it is what
  a New York clock reads at 07:30 UTC. \<open>localTimeToUTC\<close> reads the timestamp as if
  it were UTC and subtracts the offset the zone has at 03:30 UTC, before the change:
  it returns 08:30 UTC, an hour late, and \<open>utcToLocalTime\<close> brings that back as 04:30.
\<close>

theorem round_trip_off_by_an_hour:
  "utcToZonedTime refLib 1710055800000 ''America/New_York'' =
     parseISO refLib ''2024-03-10T03:30:00'' \<and>
   localTimeToUTC refLib ''2024-03-10T03:30:00'' ''America/New_York'' = 1710059400000 \<and>
   take 19 (utcToLocalTime refLib
       (localTimeToUTC refLib ''2024-03-10T03:30:00'' ''America/New_York'')
       ''America/New_York'') = ''2024-03-10T04:30:00'' \<and>
   utcToLocalTime refLib
       (localTimeToUTC refLib ''2024-03-10T03:30:00'' ''America/New_York'')
       ''America/New_York'' \<noteq>
     format refLib (parseISO refLib ''2024-03-10T03:30:00'') ''America/New_York''"
  by code_simp

end
